theory Spec2Isabelle
  imports Main "HOL-Library.AList" "HOL-Library.Sublist"
begin

section \<open>The network resilience wrapper (src/lib/supabase.ts)\<close>

subsection \<open>Values, environment and trace\<close>

text \<open>
  A value in error position (thrown, rejected, or the \<open>error\<close> field of a backend
  result, all typed \<open>any\<close>): \<open>undefined\<close>, \<open>null\<close>, a primitive, or an object whose
  \<open>message\<close> property is absent or a string.
\<close>

datatype jserr =
    JsUndefined
  | JsNull
  | JsBool bool
  | JsNum int
  | JsStr string
  | JsError "string option"

text \<open>JavaScript's truthiness, as tested by \<open>if (error)\<close>.\<close>

fun truthy_value :: "jserr \<Rightarrow> bool" where
  "truthy_value JsUndefined = False"
| "truthy_value JsNull = False"
| "truthy_value (JsBool b) = b"
| "truthy_value (JsNum n) = (n \<noteq> 0)"
| "truthy_value (JsStr t) = (t \<noteq> [])"
| "truthy_value (JsError m) = True"

text \<open>\<open>undefined\<close> and \<open>null\<close>: reading a property of them raises a TypeError.\<close>

fun nullish :: "jserr \<Rightarrow> bool" where
  "nullish JsUndefined = True"
| "nullish JsNull = True"
| "nullish _ = False"

text \<open>
  What \<open>window.navigator.onLine\<close> shows at one call of \<open>checkOnline\<close>, and, when it
  shows offline, whether the "online" event the wrapper then listens for ever fires.
  The module reads \<open>localStorage\<close> when it is loaded, so it only runs where \<open>window\<close>
  exists; the branch \<open>typeof window === 'undefined'\<close> of \<open>checkOnline\<close> is not modelled.
\<close>

datatype net = Online | Offline_then_online | Offline_forever

text \<open>
  The observable steps of a run. \<open>'q\<close> describes the operation that is invoked
  (a request, a query); the wrapper itself never inspects it. \<open>Spawn f\<close> is a call of
  the async function \<open>f\<close> whose promise the caller does not await.
\<close>

datatype 'q event =
    Invoke 'q
  | Backoff nat
  | Await_online
  | Console_error string jserr
  | Alert string
  | Navigate string
  | Spawn string

text \<open>
  The environment of a run: \<open>net w k\<close> is what the \<open>k\<close>-th call of \<open>checkOnline\<close>
  finds, \<open>settle w k\<close> is how the promise of the \<open>k\<close>-th invoked operation settles
  (\<open>Inl\<close>: it rejects), \<open>checks\<close> and \<open>calls\<close> count both kinds of calls so far and
  \<open>trace\<close> is the list of steps so far, oldest first.
\<close>

record ('q, 'a) world =
  net :: "nat \<Rightarrow> net"
  settle :: "nat \<Rightarrow> jserr + 'a"
  checks :: nat
  calls :: nat
  trace :: "'q event list"

definition emit :: "'q event \<Rightarrow> ('q, 'a) world \<Rightarrow> ('q, 'a) world" where
  "emit ev w = w\<lparr>trace := trace w @ [ev]\<rparr>"

text \<open>\<open>checkOnline\<close>: true iff the browser reports a connection.\<close>

definition checkOnline :: "('q, 'a) world \<Rightarrow> bool \<times> ('q, 'a) world" where
  "checkOnline w = (net w (checks w) = Online, w\<lparr>checks := Suc (checks w)\<rparr>)"

text \<open>
  The gate at the head of each attempt: \<open>if (!checkOnline()) await new Promise(...)\<close>.
  The promise resolves only from the handler of the "online" event, so when that event
  never fires the attempt, and with it the whole call, never continues: \<open>None\<close>.
\<close>

definition online_gate :: "('q, 'a) world \<Rightarrow> ('q, 'a) world option" where
  "online_gate w =
     (case net w (checks w) of
        Online \<Rightarrow> Some (snd (checkOnline w))
      | Offline_then_online \<Rightarrow> Some (emit Await_online (snd (checkOnline w)))
      | Offline_forever \<Rightarrow> None)"

text \<open>\<open>await operation()\<close>: one invocation, settled by the environment.\<close>

definition invoke :: "'q \<Rightarrow> ('q, 'a) world \<Rightarrow> (jserr + 'a) \<times> ('q, 'a) world" where
  "invoke q w = (settle w (calls w), emit (Invoke q) (w\<lparr>calls := Suc (calls w)\<rparr>))"

subsection \<open>withRetry\<close>

text \<open>
  The loop \<open>for (let i = 0; i < maxRetries; i++)\<close> from a given \<open>i\<close>, with the current
  \<open>lastError\<close> (\<open>undefined\<close> until a catch assigns it). The result is \<open>None\<close> when the
  call never settles, \<open>Some (Inr v, _)\<close> when it returns \<open>v\<close> and \<open>Some (Inl e, _)\<close> when
  it throws \<open>lastError = e\<close>.
\<close>

function retry_loop ::
  "'q \<Rightarrow> nat \<Rightarrow> nat \<Rightarrow> nat \<Rightarrow> jserr \<Rightarrow> ('q, 'a) world
     \<Rightarrow> ((jserr + 'a) \<times> ('q, 'a) world) option" where
  "retry_loop q maxRetries baseDelay i lastError w =
     (if i < maxRetries then
        (case online_gate w of
           None \<Rightarrow> None
         | Some w1 \<Rightarrow>
             (case invoke q w1 of
                (Inr v, w2) \<Rightarrow> Some (Inr v, w2)
              | (Inl e, w2) \<Rightarrow>
                  retry_loop q maxRetries baseDelay (Suc i) e
                    (if i < maxRetries - 1 then emit (Backoff (baseDelay * 2 ^ i)) w2 else w2)))
      else Some (Inl lastError, w))"
  by pat_completeness auto
termination
  by (relation "measure (\<lambda>(q, maxRetries, baseDelay, i, lastError, w). maxRetries - i)") auto

declare retry_loop.simps [simp del]

definition withRetry ::
  "'q \<Rightarrow> nat \<Rightarrow> nat \<Rightarrow> ('q, 'a) world \<Rightarrow> ((jserr + 'a) \<times> ('q, 'a) world) option" where
  "withRetry q maxRetries baseDelay w = retry_loop q maxRetries baseDelay 0 JsUndefined w"

text \<open>The call with the default arguments \<open>maxRetries = 5\<close>, \<open>baseDelay = 1000\<close>.\<close>

definition withRetry_default ::
  "'q \<Rightarrow> ('q, 'a) world \<Rightarrow> ((jserr + 'a) \<times> ('q, 'a) world) option" where
  "withRetry_default q w = withRetry q 5 1000 w"

subsection \<open>The client's custom fetch\<close>

text \<open>
  What a caller passes as \<open>options.headers\<close>: a plain object with string values kept
  in insertion order, or a \<open>Headers\<close> instance, whose entries are not own enumerable
  properties.
\<close>

datatype headers_init =
    Plain "(string \<times> string) list"
  | Headers_instance "(string \<times> string) list"

text \<open>
  The options of a request: the headers and whatever other options the caller passed
  (the record's extension), which \<open>{...options, headers}\<close> copies unchanged.
\<close>

record request =
  url :: string
  headers :: headers_init

text \<open>
  \<open>{...options.headers, apikey, Authorization, 'Cache-Control', Pragma}\<close>, a plain
  object: the spread copies the entries of a plain object and nothing from a
  \<open>Headers\<close> instance; a key already present keeps its place and takes the new value,
  a new key goes to the end.
\<close>

definition merge_headers :: "string \<Rightarrow> headers_init \<Rightarrow> headers_init" where
  "merge_headers supabaseKey h =
     Plain
       (AList.update ''Pragma'' ''no-cache''
         (AList.update ''Cache-Control'' ''no-cache''
           (AList.update ''Authorization'' (''Bearer '' @ supabaseKey)
             (AList.update ''apikey'' supabaseKey
               (case h of Plain hs \<Rightarrow> hs | Headers_instance hs \<Rightarrow> [])))))"

definition connect_error :: jserr where
  "connect_error =
     JsError (Some ''Unable to connect to the server. Please check your internet connection.'')"

definition supabase_fetch ::
  "string \<Rightarrow> 'z request_scheme \<Rightarrow> ('z request_scheme, 'a) world
     \<Rightarrow> ((jserr + 'a) \<times> ('z request_scheme, 'a) world) option" where
  "supabase_fetch supabaseKey options w =
     (case withRetry_default (options\<lparr>headers := merge_headers supabaseKey (headers options)\<rparr>) w of
        None \<Rightarrow> None
      | Some (Inr response, w') \<Rightarrow> Some (Inr response, w')
      | Some (Inl error, w') \<Rightarrow>
          Some (Inl connect_error, emit (Console_error ''Supabase fetch error:'' error) w'))"

subsection \<open>supabaseOperation\<close>

text \<open>
  The backend's result convention \<open>{data: T | null, error: any}\<close>; \<open>None\<close> is \<open>null\<close>.
\<close>

record 'a result =
  data :: "'a option"
  error :: jserr

definition offline_error :: jserr where
  "offline_error =
     JsError (Some ''You are currently offline. Please check your internet connection.'')"

definition no_data_error :: jserr where
  "no_data_error = JsError (Some ''No data returned from server'')"

text \<open>
  What reading the property \<open>prop\<close> of \<open>undefined\<close> or \<open>null\<close> raises (the text is the
  engine's).
\<close>

definition type_error_reading :: "jserr \<Rightarrow> string \<Rightarrow> jserr" where
  "type_error_reading v prop =
     JsError (Some (''Cannot read properties of '' @
       (if v = JsUndefined then ''undefined'' else ''null'') @
       '' (reading '' @ [CHR 0x27] @ prop @ [CHR 0x27] @ '')''))"

text \<open>
  \<open>error.message || 'An unexpected error occurred'\<close> for an \<open>error\<close> that is neither
  \<open>undefined\<close> nor \<open>null\<close>: a primitive has no \<open>message\<close>, and an absent or empty
  message is falsy.
\<close>

fun message_or_default :: "jserr \<Rightarrow> string" where
  "message_or_default (JsError (Some m)) =
     (if m = [] then ''An unexpected error occurred'' else m)"
| "message_or_default _ = ''An unexpected error occurred''"

text \<open>
  The \<open>try\<close> block. \<open>if (error)\<close> and \<open>if (!data)\<close> are truthiness tests. \<open>truthy\<close> is
  JavaScript's truthiness on the values of the type \<open>T\<close> of \<open>data\<close>, so a \<open>data\<close> that
  is present but falsy (\<open>0\<close>, \<open>''\<close>, \<open>false\<close>) takes the same branch as \<open>null\<close>. \<open>Inl\<close>
  is the value thrown to the \<open>catch\<close> block.
\<close>

definition operation_try ::
  "('a \<Rightarrow> bool) \<Rightarrow> 'q \<Rightarrow> string \<Rightarrow> ('q, 'a result) world
     \<Rightarrow> ((jserr + 'a) \<times> ('q, 'a result) world) option" where
  "operation_try truthy q errorMessage w =
     (case withRetry_default q w of
        None \<Rightarrow> None
      | Some (Inl lastError, w1) \<Rightarrow> Some (Inl lastError, w1)
      | Some (Inr res, w1) \<Rightarrow>
          if truthy_value (error res)
          then Some (Inl (error res), emit (Console_error (errorMessage @ '':'') (error res)) w1)
          else
            (case data res of
               None \<Rightarrow> Some (Inl no_data_error, w1)
             | Some d \<Rightarrow> if truthy d then Some (Inr d, w1) else Some (Inl no_data_error, w1)))"

text \<open>
  The \<open>catch\<close> block; reading \<open>message\<close> of \<open>undefined\<close> or \<open>null\<close> raises a TypeError
  before anything is logged, and that TypeError leaves the function as it is.
\<close>

definition operation_catch ::
  "string \<Rightarrow> jserr \<Rightarrow> ('q, 'b) world \<Rightarrow> jserr \<times> ('q, 'b) world" where
  "operation_catch errorMessage thrown w =
     (if nullish thrown then (type_error_reading thrown ''message'', w)
      else
        (JsError (Some (errorMessage @ '': '' @ message_or_default thrown)),
         emit (Console_error (errorMessage @ '':'') thrown) w))"

definition supabaseOperation ::
  "('a \<Rightarrow> bool) \<Rightarrow> 'q \<Rightarrow> string \<Rightarrow> ('q, 'a result) world
     \<Rightarrow> ((jserr + 'a) \<times> ('q, 'a result) world) option" where
  "supabaseOperation truthy q errorMessage w =
     (case checkOnline w of
        (False, w0) \<Rightarrow> Some (Inl offline_error, w0)
      | (True, w0) \<Rightarrow>
          (case operation_try truthy q errorMessage w0 of
             None \<Rightarrow> None
           | Some (Inr d, w1) \<Rightarrow> Some (Inr d, w1)
           | Some (Inl thrown, w1) \<Rightarrow>
               (case operation_catch errorMessage thrown w1 of (e, w2) \<Rightarrow> Some (Inl e, w2))))"

section \<open>The session context (src/contexts/AuthContext.tsx)\<close>

record user =
  uid :: string
  email :: string

record session =
  access_token :: string
  session_user :: user

record auth_state =
  user :: "user option"
  session :: "session option"

text \<open>
  What becomes of the promise of \<open>supabase.auth.signOut()\<close>: it resolves to \<open>{error}\<close>,
  it rejects, or it never settles (the client's requests wait at the gate of
  \<open>withRetry\<close> while the device stays offline, and there is no timeout).
\<close>

datatype signout_reply = Replied jserr | Threw jserr | Pending

text \<open>
  \<open>signOut\<close>: \<open>None\<close> when its promise never settles, otherwise the settled value
  (\<open>Inl\<close>: it rejects), the state after it, and what it wrote to the console.
  \<open>if (error) throw error\<close> is a truthiness test.
\<close>

definition signOut ::
  "signout_reply \<Rightarrow> auth_state
     \<Rightarrow> ((jserr + unit) \<times> auth_state \<times> unit event list) option" where
  "signOut reply st =
     (let caught = (\<lambda>e. Some (Inr (), st\<lparr>user := None, session := None\<rparr>,
                                 [Console_error ''Error signing out:'' e]))
      in case reply of
           Pending \<Rightarrow> None
         | Threw e \<Rightarrow> caught e
         | Replied err \<Rightarrow>
             if truthy_value err then caught err
             else Some (Inr (), st\<lparr>user := None, session := None\<rparr>, []))"

section \<open>The gallery view (src/pages/Gallery.tsx)\<close>

subsection \<open>Requests to the backend\<close>

text \<open>
  A row is an object from column names to values, \<open>None\<close> for \<open>null\<close>. A query of the
  row store is what the builder chain \<open>supabase.from(table).select|delete|insert ...\<close>
  has collected: \<open>.eq(column, value)\<close> and \<open>.filter(column, 'is', null)\<close> add a filter,
  \<open>.order(column, {ascending})\<close> sets the ordering.
\<close>

type_synonym row = "(string \<times> string option) list"

datatype row_filter = Eq string string | Is_null string

datatype verb = Select | Delete | Insert "row list"

record query =
  table :: string
  verb :: verb
  filters :: "row_filter list"
  ordering :: "(string \<times> bool) option"

datatype backend_call =
    Row_query query
  | Storage_upload string
  | Storage_remove "string list"

text \<open>What a call of the backend delivers in \<open>data\<close>: rows, or the stored object's path.\<close>

datatype payload = Rows "row list" | Stored string

type_synonym gworld = "(backend_call, payload result) world"

definition from_table :: "string \<Rightarrow> verb \<Rightarrow> query" where
  "from_table t v = \<lparr>table = t, verb = v, filters = [], ordering = None\<rparr>"

definition eq :: "string \<Rightarrow> string \<Rightarrow> query \<Rightarrow> query" where
  "eq column v q = q\<lparr>filters := filters q @ [Eq column v]\<rparr>"

definition filter_is_null :: "string \<Rightarrow> query \<Rightarrow> query" where
  "filter_is_null column q = q\<lparr>filters := filters q @ [Is_null column]\<rparr>"

definition order_desc :: "string \<Rightarrow> query \<Rightarrow> query" where
  "order_desc column q = q\<lparr>ordering := Some (column, False)\<rparr>"

subsection \<open>View state\<close>

record media_item =
  item_id :: string
  item_url :: string

record upload_file =
  fname :: string
  ftype :: string
  fsize :: nat

record gallery =
  media :: payload
  folders :: payload
  isUploading :: bool
  uploadProgress :: nat
  currentFolder :: "string option"
  selectedMedia :: "media_item option"
  isDeletingMedia :: bool
  isMobileMenuOpen :: bool

subsection \<open>fetchMedia and fetchFolders\<close>

text \<open>
  The query \<open>fetchMedia\<close> builds. \<open>if (currentFolder)\<close> is a truthiness test: \<open>null\<close> and
  the empty string both take the \<open>else\<close> branch.
\<close>

definition media_query :: "user \<Rightarrow> string option \<Rightarrow> query" where
  "media_query u cf =
     (let query = order_desc ''created_at'' (eq ''uploaded_by'' (uid u) (from_table ''photos'' Select))
      in case cf of
           Some f \<Rightarrow> if f \<noteq> [] then eq ''folder_id'' f query else filter_is_null ''folder_id'' query
         | None \<Rightarrow> filter_is_null ''folder_id'' query)"

definition folders_query :: "user \<Rightarrow> query" where
  "folders_query u = order_desc ''created_at'' (eq ''user_id'' (uid u) (from_table ''folders'' Select))"

text \<open>
  Both return \<open>None\<close> when the promise never settles, otherwise how it settles
  (\<open>Inl\<close>: the error rethrown to the caller) with the new state. Rows are arrays, which
  are truthy even when empty.
\<close>

definition fetchMedia ::
  "user option \<Rightarrow> gallery \<times> gworld \<Rightarrow> ((jserr + unit) \<times> gallery \<times> gworld) option" where
  "fetchMedia usr gw =
     (case gw of (g, w) \<Rightarrow>
        (case usr of
           None \<Rightarrow> Some (Inr (), g, w)
         | Some u \<Rightarrow>
             (case supabaseOperation (\<lambda>d. True) (Row_query (media_query u (currentFolder g)))
                     ''Error fetching media'' w of
                None \<Rightarrow> None
              | Some (Inr d, w1) \<Rightarrow> Some (Inr (), g\<lparr>media := d\<rparr>, w1)
              | Some (Inl e, w1) \<Rightarrow>
                  Some (Inl e, g, emit (Console_error ''Error fetching media:'' e) w1))))"

definition fetchFolders ::
  "user option \<Rightarrow> gallery \<times> gworld \<Rightarrow> ((jserr + unit) \<times> gallery \<times> gworld) option" where
  "fetchFolders usr gw =
     (case gw of (g, w) \<Rightarrow>
        (case usr of
           None \<Rightarrow> Some (Inr (), g, w)
         | Some u \<Rightarrow>
             (case supabaseOperation (\<lambda>d. True) (Row_query (folders_query u))
                     ''Error fetching folders'' w of
                None \<Rightarrow> None
              | Some (Inr d, w1) \<Rightarrow> Some (Inr (), g\<lparr>folders := d\<rparr>, w1)
              | Some (Inl e, w1) \<Rightarrow>
                  Some (Inl e, g, emit (Console_error ''Error fetching folders:'' e) w1))))"

subsection \<open>Awaiting a backend call made directly\<close>

text \<open>
  \<open>const { error, data } = await call; if (error) throw error\<close>: \<open>Inl\<close> is the value that
  reaches the enclosing \<open>catch\<close>, whether the promise rejected or resolved with a
  truthy \<open>error\<close>; \<open>Inr\<close> is \<open>data\<close>.
\<close>

definition settled :: "jserr + payload result \<Rightarrow> jserr + payload option" where
  "settled outcome =
     (case outcome of
        Inl e \<Rightarrow> Inl e
      | Inr res \<Rightarrow> if truthy_value (error res) then Inl (error res) else Inr (data res))"

definition await_call ::
  "backend_call \<Rightarrow> gworld \<Rightarrow> (jserr + payload option) \<times> gworld" where
  "await_call c w = (case invoke c w of (outcome, w1) \<Rightarrow> (settled outcome, w1))"

subsection \<open>handleFileUpload\<close>

text \<open>\<open>file.name.split('.').pop()\<close>: what follows the last dot, the whole name without one.\<close>

definition file_ext :: "string \<Rightarrow> string" where
  "file_ext n = rev (takeWhile (\<lambda>c. c \<noteq> CHR ''.'') (rev n))"

definition maxSize :: "upload_file \<Rightarrow> nat" where
  "maxSize file = (if prefix ''video/'' (ftype file) then 50 * 1024 * 1024 else 5 * 1024 * 1024)"

definition too_large_alert :: "upload_file \<Rightarrow> string" where
  "too_large_alert file =
     ''File too large. Maximum size is '' @
       (if prefix ''video/'' (ftype file) then ''50'' else ''5'') @ ''MB''"

definition upload_row :: "user \<Rightarrow> upload_file \<Rightarrow> string option \<Rightarrow> string option \<Rightarrow> row" where
  "upload_row u file path cf =
     [(''url'', path), (''folder_id'', cf), (''uploaded_by'', Some (uid u)),
      (''media_type'', Some (if prefix ''video/'' (ftype file) then ''video'' else ''image''))]"

definition insert_call :: "user \<Rightarrow> upload_file \<Rightarrow> string option \<Rightarrow> string option \<Rightarrow> backend_call" where
  "insert_call u file path cf = Row_query (from_table ''photos'' (Insert [upload_row u file path cf]))"

text \<open>\<open>filePath\<close>; \<open>random\<close> is the text of \<open>Math.random()\<close>.\<close>

definition upload_path :: "user \<Rightarrow> upload_file \<Rightarrow> string \<Rightarrow> string" where
  "upload_path u file random = uid u @ ''/'' @ random @ ''.'' @ file_ext (fname file)"

definition upload_catch :: "jserr \<Rightarrow> gworld \<Rightarrow> gworld" where
  "upload_catch e w =
     emit (Alert ''Error uploading file'') (emit (Console_error ''Error uploading file:'' e) w)"

definition upload_finally :: "gallery \<Rightarrow> gallery" where
  "upload_finally g = g\<lparr>isUploading := False, uploadProgress := 0, isMobileMenuOpen := False\<rparr>"

text \<open>
  The progress callback only moves \<open>uploadProgress\<close>, which \<open>finally\<close> resets, and is
  left out. \<open>data.path\<close> raises a TypeError when \<open>data\<close> is \<open>null\<close> and is \<open>undefined\<close>
  when \<open>data\<close> is not a stored object. The call of \<open>fetchMedia\<close> at the end is not
  awaited.
\<close>

definition handleFileUpload ::
  "user option \<Rightarrow> upload_file option \<Rightarrow> string \<Rightarrow> gallery \<times> gworld \<Rightarrow> gallery \<times> gworld" where
  "handleFileUpload usr file_opt random gw =
     (case gw of (g, w) \<Rightarrow>
        (case (file_opt, usr) of
           (_, None) \<Rightarrow> (g, emit (Navigate ''/login'') w)
         | (None, Some u) \<Rightarrow> (g, w)
         | (Some file, Some u) \<Rightarrow>
             if fsize file > maxSize file then (g, emit (Alert (too_large_alert file)) w)
             else
               (let filePath = upload_path u file random
                in case await_call (Storage_upload filePath) w of
                     (Inl uploadError, w1) \<Rightarrow> (upload_finally g, upload_catch uploadError w1)
                   | (Inr None, w1) \<Rightarrow>
                       (upload_finally g, upload_catch (type_error_reading JsNull ''path'') w1)
                   | (Inr (Some d), w1) \<Rightarrow>
                       (let path = (case d of Stored p \<Rightarrow> Some p | Rows rs \<Rightarrow> None)
                        in case await_call (insert_call u file path (currentFolder g)) w1 of
                             (Inl dbError, w2) \<Rightarrow> (upload_finally g, upload_catch dbError w2)
                           | (Inr _, w2) \<Rightarrow> (upload_finally g, emit (Spawn ''fetchMedia'') w2)))))"

subsection \<open>deleteFolder and deleteMedia\<close>

definition photos_of_folder_delete :: "string \<Rightarrow> query" where
  "photos_of_folder_delete folderId = eq ''folder_id'' folderId (from_table ''photos'' Delete)"

definition folder_delete :: "string \<Rightarrow> query" where
  "folder_delete folderId = eq ''id'' folderId (from_table ''folders'' Delete)"

definition media_delete :: "media_item \<Rightarrow> query" where
  "media_delete item = eq ''id'' (item_id item) (from_table ''photos'' Delete)"

definition delete_folder_catch :: "jserr \<Rightarrow> gworld \<Rightarrow> gworld" where
  "delete_folder_catch e w =
     emit (Alert ''Error deleting folder'') (emit (Console_error ''Error deleting folder:'' e) w)"

text \<open>\<open>confirmed\<close> is the answer to the \<open>confirm\<close> dialog.\<close>

definition deleteFolder ::
  "user option \<Rightarrow> bool \<Rightarrow> string \<Rightarrow> gallery \<times> gworld \<Rightarrow> gallery \<times> gworld" where
  "deleteFolder usr confirmed folderId gw =
     (case gw of (g, w) \<Rightarrow>
        if usr = None then (g, w)
        else if \<not> confirmed then (g, w)
        else
          (case await_call (Row_query (photos_of_folder_delete folderId)) w of
             (Inl photosError, w1) \<Rightarrow> (g, delete_folder_catch photosError w1)
           | (Inr _, w1) \<Rightarrow>
               (case await_call (Row_query (folder_delete folderId)) w1 of
                  (Inl folderError, w2) \<Rightarrow> (g, delete_folder_catch folderError w2)
                | (Inr _, w2) \<Rightarrow>
                    (if currentFolder g = Some folderId then g\<lparr>currentFolder := None\<rparr> else g,
                     emit (Spawn ''fetchFolders'') w2))))"

definition delete_media_catch :: "jserr \<Rightarrow> gworld \<Rightarrow> gworld" where
  "delete_media_catch e w =
     emit (Alert ''Error deleting media'') (emit (Console_error ''Error deleting media:'' e) w)"

text \<open>
  \<open>deleteMedia\<close> awaits \<open>fetchMedia\<close> inside its \<open>try\<close>, so it settles only if that
  does (\<open>None\<close> otherwise).
\<close>

definition deleteMedia ::
  "user option \<Rightarrow> bool \<Rightarrow> media_item \<Rightarrow> gallery \<times> gworld \<Rightarrow> (gallery \<times> gworld) option" where
  "deleteMedia usr confirmed item gw =
     (case gw of (g, w) \<Rightarrow>
        if usr = None \<or> isDeletingMedia g then Some (g, w)
        else if \<not> confirmed then Some (g, w)
        else
          (case await_call (Storage_remove [item_url item]) w of
             (Inl storageError, w1) \<Rightarrow>
               Some (g\<lparr>isDeletingMedia := False\<rparr>, delete_media_catch storageError w1)
           | (Inr _, w1) \<Rightarrow>
               (case await_call (Row_query (media_delete item)) w1 of
                  (Inl dbError, w2) \<Rightarrow>
                    Some (g\<lparr>isDeletingMedia := False\<rparr>, delete_media_catch dbError w2)
                | (Inr _, w2) \<Rightarrow>
                    (case fetchMedia usr (g\<lparr>isDeletingMedia := True, selectedMedia := None\<rparr>, w2) of
                       None \<Rightarrow> None
                     | Some (Inl e, g3, w3) \<Rightarrow>
                         Some (g3\<lparr>isDeletingMedia := False\<rparr>, delete_media_catch e w3)
                     | Some (Inr _, g3, w3) \<Rightarrow> Some (g3\<lparr>isDeletingMedia := False\<rparr>, w3)))))"

subsection \<open>The row store\<close>

text \<open>
  The contract of the remote row store, as far as deletions go: a delete that the
  backend reports as done has removed the rows of its table that match all its filters;
  any other call, and any call that fails, leaves the rows as they were. A row matches
  \<open>Eq column v\<close> when it holds \<open>v\<close> there and \<open>Is_null column\<close> when it holds \<open>null\<close>.
\<close>

type_synonym store = "string \<Rightarrow> row list"

fun matches :: "row \<Rightarrow> row_filter \<Rightarrow> bool" where
  "matches r (Eq column v) = (map_of r column = Some (Some v))"
| "matches r (Is_null column) = (map_of r column = Some None)"

definition store_step :: "backend_call \<Rightarrow> jserr + payload result \<Rightarrow> store \<Rightarrow> store" where
  "store_step c outcome st =
     (case (c, outcome) of
        (Row_query q, Inr res) \<Rightarrow>
          if verb q = Delete \<and> \<not> truthy_value (error res)
          then st(table q := filter (\<lambda>r. \<not> (\<forall>f \<in> set (filters q). matches r f)) (st (table q)))
          else st
      | _ \<Rightarrow> st)"

text \<open>The calls that a piece of trace makes, in order.\<close>

definition invocations :: "'q event list \<Rightarrow> 'q list" where
  "invocations evs = concat (map (\<lambda>ev. case ev of Invoke q \<Rightarrow> [q] | _ \<Rightarrow> []) evs)"

text \<open>
  The store after a list of calls, the first of them being the \<open>k\<close>-th call of the run,
  each settled as the environment says.
\<close>

fun store_after :: "(nat \<Rightarrow> jserr + payload result) \<Rightarrow> nat \<Rightarrow> backend_call list \<Rightarrow> store \<Rightarrow> store" where
  "store_after stl k [] st = st"
| "store_after stl k (c # cs) st = store_after stl (Suc k) cs (store_step c (stl k) st)"

section \<open>Observations on traces\<close>

text \<open>
  What the gate of one attempt adds to the trace, what a failed attempt \<open>i + k\<close> adds
  (the \<open>k\<close>-th of a run that starts at loop index \<open>i\<close> and at connectivity check \<open>c\<close>),
  and what \<open>N\<close> failed attempts in a row add.
\<close>

definition gate_events :: "net \<Rightarrow> 'q event list" where
  "gate_events n = (if n = Online then [] else [Await_online])"

definition attempt_events ::
  "'q \<Rightarrow> nat \<Rightarrow> nat \<Rightarrow> (nat \<Rightarrow> net) \<Rightarrow> nat \<Rightarrow> nat \<Rightarrow> nat \<Rightarrow> 'q event list" where
  "attempt_events q maxRetries baseDelay nt c i k =
     gate_events (nt (c + k)) @ Invoke q #
       (if i + k < maxRetries - 1 then [Backoff (baseDelay * 2 ^ (i + k))] else [])"

definition failed_events ::
  "'q \<Rightarrow> nat \<Rightarrow> nat \<Rightarrow> (nat \<Rightarrow> net) \<Rightarrow> nat \<Rightarrow> nat \<Rightarrow> nat \<Rightarrow> 'q event list" where
  "failed_events q maxRetries baseDelay nt c i N =
     concat (map (attempt_events q maxRetries baseDelay nt c i) [0..<N])"

definition without_awaits :: "'q event list \<Rightarrow> 'q event list" where
  "without_awaits evs = filter (\<lambda>ev. ev \<noteq> Await_online) evs"

definition backoffs :: "'q event list \<Rightarrow> nat list" where
  "backoffs evs = concat (map (\<lambda>ev. case ev of Backoff d \<Rightarrow> [d] | _ \<Rightarrow> []) evs)"

text \<open>The filters of a query that bear on the column \<open>folder_id\<close>.\<close>

definition folder_condition :: "query \<Rightarrow> row_filter list" where
  "folder_condition q =
     filter (\<lambda>f. case f of Eq column v \<Rightarrow> column = ''folder_id'' | Is_null column \<Rightarrow> column = ''folder_id'')
       (filters q)"

text \<open>A query is scoped to a user when one of its equality filters asks for that user's id.\<close>

definition user_scoped :: "string \<Rightarrow> query \<Rightarrow> bool" where
  "user_scoped userId q =
     list_ex (\<lambda>f. case f of Eq column v \<Rightarrow> v = userId | Is_null column \<Rightarrow> False) (filters q)"

text \<open>
  A backend call fails, for the code that awaits it, when its promise rejects or its
  result has a truthy \<open>error\<close>.
\<close>

definition call_failed :: "jserr + 'a result \<Rightarrow> bool" where
  "call_failed outcome = (case outcome of Inl e \<Rightarrow> True | Inr res \<Rightarrow> truthy_value (error res))"

section \<open>Example environments\<close>

text \<open>Two rejections, then the value 7; the device is offline at the second attempt.\<close>

definition flaky_world :: "(string, nat) world" where
  "flaky_world =
     \<lparr>net = (\<lambda>k. if k = 1 then Offline_then_online else Online),
      settle = (\<lambda>k. if k < 2 then Inl (JsError (Some ''Failed to fetch'')) else Inr 7),
      checks = 0, calls = 0, trace = []\<rparr>"

text \<open>Every invocation rejects; the fifth one with an error of its own.\<close>

definition failing_world :: "(request, nat) world" where
  "failing_world =
     \<lparr>net = (\<lambda>k. Online),
      settle = (\<lambda>k. Inl (JsError (Some (if k = 4 then ''Failed to fetch (5)'' else ''Failed to fetch'')))),
      checks = 0, calls = 0, trace = []\<rparr>"


text \<open>Online; the thunk resolves at once with the number 0 as data and no error.\<close>

definition zero_world :: "(string, nat result) world" where
  "zero_world =
     \<lparr>net = (\<lambda>k. Online),
      settle = (\<lambda>k. Inr \<lparr>data = Some 0, error = JsNull\<rparr>),
      checks = 0, calls = 0, trace = []\<rparr>"


text \<open>A signed-in user, the initial view state, and four backends.\<close>

definition alice :: user where
  "alice = \<lparr>uid = ''u1'', email = ''alice@example.org''\<rparr>"

definition gallery0 :: gallery where
  "gallery0 =
     \<lparr>media = Rows [], folders = Rows [], isUploading = False, uploadProgress = 0,
      currentFolder = None, selectedMedia = None, isDeletingMedia = False,
      isMobileMenuOpen = False\<rparr>"

text \<open>The session context with that user signed in.\<close>

definition signed_in :: auth_state where
  "signed_in = \<lparr>user = Some alice, session = Some \<lparr>access_token = ''t0'', session_user = alice\<rparr>\<rparr>"

text \<open>Every call succeeds and delivers no data.\<close>

definition ok_world :: gworld where
  "ok_world =
     \<lparr>net = (\<lambda>k. Online), settle = (\<lambda>k. Inr \<lparr>data = None, error = JsNull\<rparr>),
      checks = 0, calls = 0, trace = []\<rparr>"

text \<open>Every call comes back with a backend error.\<close>

definition denied_world :: gworld where
  "denied_world =
     \<lparr>net = (\<lambda>k. Online),
      settle = (\<lambda>k. Inr \<lparr>data = None, error = JsError (Some ''permission denied'')\<rparr>),
      checks = 0, calls = 0, trace = []\<rparr>"

text \<open>Every call delivers an empty list of rows.\<close>

definition rows_world :: gworld where
  "rows_world =
     \<lparr>net = (\<lambda>k. Online), settle = (\<lambda>k. Inr \<lparr>data = Some (Rows []), error = JsNull\<rparr>),
      checks = 0, calls = 0, trace = []\<rparr>"

text \<open>The first call delivers a stored object's path, the later ones no data.\<close>

definition upload_world :: gworld where
  "upload_world =
     \<lparr>net = (\<lambda>k. Online),
      settle = (\<lambda>k. if k = 0 then Inr \<lparr>data = Some (Stored ''u1/0.42.mp4''), error = JsNull\<rparr>
                    else Inr \<lparr>data = None, error = JsNull\<rparr>),
      checks = 0, calls = 0, trace = []\<rparr>"

text \<open>A row store with the folder \<open>f1\<close>, three photos in it and one photo at the root.\<close>

definition store0 :: store where
  "store0 =
     (\<lambda>t. if t = ''photos'' then
              [[(''id'', Some ''p1''), (''folder_id'', Some ''f1'')],
               [(''id'', Some ''p2''), (''folder_id'', Some ''f1'')],
               [(''id'', Some ''p3''), (''folder_id'', Some ''f1'')],
               [(''id'', Some ''p4''), (''folder_id'', None)]]
            else if t = ''folders'' then [[(''id'', Some ''f1''), (''name'', Some ''Trip'')]]
            else [])"

text \<open>A video of 40MB and an image of 6MB.\<close>

definition holiday_video :: upload_file where
  "holiday_video = \<lparr>fname = ''holiday.mp4'', ftype = ''video/mp4'', fsize = 40 * 1024 * 1024\<rparr>"

definition big_image :: upload_file where
  "big_image = \<lparr>fname = ''cat.png'', ftype = ''image/png'', fsize = 6 * 1024 * 1024\<rparr>"

section \<open>Properties of withRetry\<close>

lemma online_gate_Some:
  "net w (checks w) \<noteq> Offline_forever \<Longrightarrow>
   online_gate w = Some (w\<lparr>checks := Suc (checks w), trace := trace w @ gate_events (net w (checks w))\<rparr>)"
  by (cases "net w (checks w)") (simp_all add: online_gate_def checkOnline_def emit_def gate_events_def)

lemma failed_events_Suc:
  "failed_events q m b nt c i (Suc n) =
     attempt_events q m b nt c i 0 @ failed_events q m b nt (Suc c) (Suc i) n"
proof -
  have "map (attempt_events q m b nt c i) [0..<Suc n] =
        attempt_events q m b nt c i 0 # map (attempt_events q m b nt (Suc c) (Suc i)) [0..<n]"
    unfolding upt_conv_Cons [OF zero_less_Suc] map_Suc_upt [symmetric]
    by (simp add: attempt_events_def)
  then show ?thesis
    by (simp add: failed_events_def)
qed

lemma retry_loop_fail_step:
  assumes "i < maxRetries" and "net w (checks w) \<noteq> Offline_forever"
    and "settle w (calls w) = Inl e"
  shows "retry_loop q maxRetries baseDelay i le w =
         retry_loop q maxRetries baseDelay (Suc i) e
           (w\<lparr>checks := Suc (checks w), calls := Suc (calls w),
              trace := trace w @ attempt_events q maxRetries baseDelay (net w) (checks w) i 0\<rparr>)"
  using assms
  by (subst retry_loop.simps)
     (simp add: online_gate_Some invoke_def emit_def attempt_events_def)

lemma retry_loop_failures:
  "i + N \<le> maxRetries \<Longrightarrow>
   \<forall>k<N. settle w (calls w + k) = Inl (err k) \<Longrightarrow>
   \<forall>k<N. net w (checks w + k) \<noteq> Offline_forever \<Longrightarrow>
   retry_loop q maxRetries baseDelay i le w =
     retry_loop q maxRetries baseDelay (i + N) (if N = 0 then le else err (N - 1))
       (w\<lparr>checks := checks w + N, calls := calls w + N,
          trace := trace w @ failed_events q maxRetries baseDelay (net w) (checks w) i N\<rparr>)"
proof (induction N arbitrary: i le w err)
  case 0
  show ?case by (simp add: failed_events_def)
next
  case (Suc n)
  let ?w1 = "w\<lparr>checks := Suc (checks w), calls := Suc (calls w),
               trace := trace w @ attempt_events q maxRetries baseDelay (net w) (checks w) i 0\<rparr>"
  have i: "i < maxRetries" using Suc.prems(1) by simp
  have g: "net w (checks w) \<noteq> Offline_forever" using Suc.prems(3) [rule_format, of 0] by simp
  have e: "settle w (calls w) = Inl (err 0)" using Suc.prems(2) [rule_format, of 0] by simp
  have 1: "Suc i + n \<le> maxRetries" using Suc.prems(1) by simp
  have 2: "\<forall>k<n. settle ?w1 (calls ?w1 + k) = Inl (err (Suc k))"
    using Suc.prems(2) by auto
  have 3: "\<forall>k<n. net ?w1 (checks ?w1 + k) \<noteq> Offline_forever"
    using Suc.prems(3) by auto
  show ?case
    unfolding retry_loop_fail_step [OF i g e] Suc.IH [OF 1 2 3]
    by (cases n) (simp_all add: failed_events_Suc)
qed

lemma retry_loop_succeeds:
  assumes "i + N < maxRetries"
    and "\<forall>k<N. settle w (calls w + k) = Inl (err k)"
    and "settle w (calls w + N) = Inr v"
    and "\<forall>k\<le>N. net w (checks w + k) \<noteq> Offline_forever"
  shows "retry_loop q maxRetries baseDelay i le w =
     Some (Inr v, w\<lparr>checks := checks w + N + 1, calls := calls w + N + 1,
                     trace := trace w @ failed_events q maxRetries baseDelay (net w) (checks w) i N
                                @ gate_events (net w (checks w + N)) @ [Invoke q]\<rparr>)"
proof -
  have 1: "i + N \<le> maxRetries" using assms(1) by simp
  have 3: "\<forall>k<N. net w (checks w + k) \<noteq> Offline_forever" using assms(4) by simp
  have g: "net w (checks w + N) \<noteq> Offline_forever" using assms(4) by simp
  show ?thesis
    unfolding retry_loop_failures [OF 1 assms(2) 3]
    using assms(1,3) g
    by (subst retry_loop.simps) (simp add: online_gate_Some invoke_def emit_def)
qed

lemma retry_loop_exhausts:
  assumes "i + N = maxRetries"
    and "\<forall>k<N. settle w (calls w + k) = Inl (err k)"
    and "\<forall>k<N. net w (checks w + k) \<noteq> Offline_forever"
  shows "retry_loop q maxRetries baseDelay i le w =
     Some (Inl (if N = 0 then le else err (N - 1)),
           w\<lparr>checks := checks w + N, calls := calls w + N,
              trace := trace w @ failed_events q maxRetries baseDelay (net w) (checks w) i N\<rparr>)"
proof -
  have 1: "i + N \<le> maxRetries" using assms(1) by simp
  show ?thesis
    unfolding retry_loop_failures [OF 1 assms(2) assms(3)]
    using assms(1)
    by (subst retry_loop.simps) simp
qed

lemma without_awaits_gate: "without_awaits (gate_events n) = ([] :: 'q event list)"
  by (simp add: without_awaits_def gate_events_def)

lemma without_awaits_append:
  "without_awaits (xs @ ys) = without_awaits xs @ without_awaits ys"
  by (simp add: without_awaits_def)

lemma without_awaits_failed:
  "i + N < maxRetries \<Longrightarrow>
   without_awaits (failed_events q maxRetries baseDelay nt c i N) =
     concat (map (\<lambda>k. [Invoke q, Backoff (baseDelay * 2 ^ (i + k))]) [0..<N])"
proof (induction N)
  case 0
  show ?case by (simp add: failed_events_def without_awaits_def)
next
  case (Suc n)
  then have "i + n < maxRetries - 1" by arith
  with Suc show ?case
    by (simp add: failed_events_def attempt_events_def without_awaits_append without_awaits_gate)
       (simp add: without_awaits_def)
qed

lemma invocations_without_awaits: "invocations (without_awaits evs) = invocations evs"
  by (induction evs) (simp_all add: invocations_def without_awaits_def)

lemma backoffs_without_awaits: "backoffs (without_awaits evs) = backoffs evs"
  by (induction evs) (simp_all add: backoffs_def without_awaits_def)

lemma invocations_attempts:
  "invocations (concat (map (\<lambda>k. [Invoke q, Backoff (f k)]) ks) @ [Invoke q]) =
     replicate (Suc (length ks)) q"
  by (induction ks) (simp_all add: invocations_def)

lemma backoffs_attempts:
  "backoffs (concat (map (\<lambda>k. [Invoke q, Backoff (f k)]) ks) @ [Invoke q]) = map f ks"
  by (induction ks) (simp_all add: backoffs_def)

text \<open>
  C1. For every \<open>N\<close> from 0 to 4: when the first \<open>N\<close> invocations of the operation
  reject and the next one resolves with \<open>v\<close>, \<open>withRetry\<close> (default arguments) returns
  \<open>v\<close>. It invokes the operation exactly \<open>N + 1\<close> times, and apart from the pauses
  for the "online" event the run is invocation, wait of \<open>1000 * 2 ^ 0\<close> ms, invocation,
  wait of \<open>1000 * 2 ^ 1\<close> ms, ..., wait of \<open>1000 * 2 ^ (N - 1)\<close> ms, invocation: no wait
  follows the successful invocation. The operation is invoked \<open>N + 1\<close> times only if
  each attempt gets past its gate, that is, the "online" event fires whenever an
  attempt finds the device offline.
\<close>

theorem withRetry_transient_failures:
  assumes "N \<le> 4"
    and "\<forall>k<N. isl (settle w (calls w + k))"
    and "settle w (calls w + N) = Inr v"
    and "\<forall>k\<le>N. net w (checks w + k) \<noteq> Offline_forever"
  shows "\<exists>w' evs. withRetry_default q w = Some (Inr v, w')
           \<and> trace w' = trace w @ evs
           \<and> calls w' = calls w + N + 1
           \<and> invocations evs = replicate (N + 1) q
           \<and> backoffs evs = map (\<lambda>k. 1000 * 2 ^ k) [0..<N]
           \<and> without_awaits evs =
               concat (map (\<lambda>k. [Invoke q, Backoff (1000 * 2 ^ k)]) [0..<N]) @ [Invoke q]"
proof -
  let ?attempts = "concat (map (\<lambda>k. [Invoke q, Backoff (1000 * 2 ^ k)]) [0..<N]) @ [Invoke q]"
  let ?evs = "failed_events q 5 1000 (net w) (checks w) 0 N
                @ gate_events (net w (checks w + N)) @ [Invoke q]"
  let ?final = "w\<lparr>checks := checks w + N + 1, calls := calls w + N + 1, trace := trace w @ ?evs\<rparr>"
  have lt: "0 + N < 5" using assms(1) by simp
  have errs: "\<forall>k<N. settle w (calls w + k) = Inl (projl (settle w (calls w + k)))"
    using assms(2) by simp
  have run: "withRetry_default q w = Some (Inr v, ?final)"
    unfolding withRetry_default_def withRetry_def
    by (rule retry_loop_succeeds [OF lt errs assms(3) assms(4)])
  have shape: "without_awaits ?evs = ?attempts"
    using without_awaits_failed [OF lt, of q 1000 "net w" "checks w"]
    by (simp add: without_awaits_append without_awaits_gate) (simp add: without_awaits_def)
  have inv: "invocations ?evs = replicate (N + 1) q"
    using invocations_attempts [of q "\<lambda>k. 1000 * 2 ^ k" "[0..<N]"]
    unfolding shape [symmetric] invocations_without_awaits by simp
  have delays: "backoffs ?evs = map (\<lambda>k. 1000 * 2 ^ k) [0..<N]"
    using backoffs_attempts [of q "\<lambda>k. 1000 * 2 ^ k" "[0..<N]"]
    unfolding shape [symmetric] backoffs_without_awaits by simp
  have "trace ?final = trace w @ ?evs" and "calls ?final = calls w + N + 1" by simp_all
  with run shape inv delays show ?thesis by blast
qed

text \<open>The case \<open>N = 2\<close>, with the device offline at the second attempt.\<close>

theorem withRetry_transient_failures_witness:
  "\<exists>w' evs. withRetry_default ''get'' flaky_world = Some (Inr 7, w')
     \<and> trace w' = evs
     \<and> calls w' = 3
     \<and> invocations evs = [''get'', ''get'', ''get'']
     \<and> backoffs evs = [1000, 2000]
     \<and> without_awaits evs =
         [Invoke ''get'', Backoff 1000, Invoke ''get'', Backoff 2000, Invoke ''get'']"
proof -
  have h1: "(2::nat) \<le> 4" by simp
  have h2: "\<forall>k<2. isl (settle flaky_world (calls flaky_world + k))"
    by (simp add: flaky_world_def)
  have h3: "settle flaky_world (calls flaky_world + 2) = Inr 7"
    by (simp add: flaky_world_def)
  have h4: "\<forall>k\<le>2. net flaky_world (checks flaky_world + k) \<noteq> Offline_forever"
    by (simp add: flaky_world_def)
  have upt: "[0..<2] = [0, Suc 0]"
    by (simp add: numeral_2_eq_2)
  from withRetry_transient_failures [OF h1 h2 h3 h4, of "''get''"] show ?thesis
    by (simp add: flaky_world_def upt numeral_3_eq_3)
qed

text \<open>
  C2. When all five invocations of the operation reject, \<open>withRetry\<close> (default
  arguments) throws the error of the fifth invocation, as it is, to its caller. The
  client's custom fetch, which calls \<open>withRetry\<close> inside its \<open>try\<close>, then throws to its
  own caller the fixed connectivity error, whatever the underlying errors were, and the
  original error goes to the console, not to the caller.
\<close>

theorem withRetry_exhausted:
  assumes "\<forall>k<5. settle w (calls w + k) = Inl (err k)"
    and "\<forall>k<5. net w (checks w + k) \<noteq> Offline_forever"
  shows "(\<exists>w'. withRetry_default q w = Some (Inl (err 4), w') \<and> calls w' = calls w + 5)
       \<and> (\<exists>w'. supabase_fetch supabaseKey options w = Some (Inl connect_error, w')
               \<and> calls w' = calls w + 5
               \<and> last (trace w') = Console_error ''Supabase fetch error:'' (err 4))
       \<and> connect_error =
            JsError (Some ''Unable to connect to the server. Please check your internet connection.'')"
proof -
  have five: "0 + 5 = (5::nat)" by simp
  have run: "withRetry_default r w =
               Some (Inl (err 4),
                     w\<lparr>checks := checks w + 5, calls := calls w + 5,
                        trace := trace w @ failed_events r 5 1000 (net w) (checks w) 0 5\<rparr>)" for r
    unfolding withRetry_default_def withRetry_def
    using retry_loop_exhausts [OF five assms, of r 1000 JsUndefined] by simp
  have direct: "\<exists>w'. withRetry_default q w = Some (Inl (err 4), w') \<and> calls w' = calls w + 5"
    unfolding run by simp
  have outer: "\<exists>w'. supabase_fetch supabaseKey options w = Some (Inl connect_error, w')
               \<and> calls w' = calls w + 5
               \<and> last (trace w') = Console_error ''Supabase fetch error:'' (err 4)"
    unfolding supabase_fetch_def run by (simp add: emit_def)
  have msg: "connect_error =
            JsError (Some ''Unable to connect to the server. Please check your internet connection.'')"
    by (simp add: connect_error_def)
  from direct outer msg show ?thesis by blast
qed

text \<open>Five rejections, the last one with a message of its own.\<close>

theorem withRetry_exhausted_witness:
  "(\<exists>w'. withRetry_default \<lparr>url = ''/rest/v1/photos'', headers = Plain []\<rparr> failing_world =
            Some (Inl (JsError (Some ''Failed to fetch (5)'')), w') \<and> calls w' = 5)
   \<and> (\<exists>w'. supabase_fetch ''anon-key'' \<lparr>url = ''/rest/v1/photos'', headers = Plain []\<rparr> failing_world =
            Some (Inl connect_error, w')
          \<and> calls w' = 5
          \<and> last (trace w') =
              Console_error ''Supabase fetch error:'' (JsError (Some ''Failed to fetch (5)'')))"
proof -
  have h1: "\<forall>k<5. settle failing_world (calls failing_world + k) =
              Inl (JsError (Some (if k = 4 then ''Failed to fetch (5)'' else ''Failed to fetch'')))"
    by (simp add: failing_world_def)
  have h2: "\<forall>k<5. net failing_world (checks failing_world + k) \<noteq> Offline_forever"
    by (simp add: failing_world_def)
  from withRetry_exhausted [OF h1 h2, of "\<lparr>url = ''/rest/v1/photos'', headers = Plain []\<rparr>" "''anon-key''"
      "\<lparr>url = ''/rest/v1/photos'', headers = Plain []\<rparr>"]
  show ?thesis
    by (simp add: failing_world_def)
qed

section \<open>Properties of signOut\<close>

lemma signOut_settled:
  "reply \<noteq> Pending \<Longrightarrow>
   \<exists>log. signOut reply st = Some (Inr (), st\<lparr>user := None, session := None\<rparr>, log)"
  by (cases reply) (simp_all add: signOut_def)

lemma signOut_pending: "signOut Pending st = None"
  by (simp add: signOut_def)

lemma signOut_completed:
  assumes "signOut reply st = Some (r, st', log)"
  shows "r = Inr () \<and> st' = st\<lparr>user := None, session := None\<rparr>"
proof (cases "reply = Pending")
  case True
  with assms show ?thesis by (simp add: signOut_pending)
next
  case False
  from signOut_settled [OF False, of st] assms show ?thesis by auto
qed

text \<open>
  C6. However the remote sign-out settles (no error, a returned error, or a thrown
  exception), \<open>signOut\<close> completes, and whenever \<open>signOut\<close> completes the cached user and
  session are both \<open>null\<close>.
\<close>

theorem signOut_clears_local_state:
  "(reply \<noteq> Pending \<longrightarrow>
      (\<exists>r log. signOut reply st = Some (r, st\<lparr>user := None, session := None\<rparr>, log)))
   \<and> (\<forall>r st' log. signOut reply st = Some (r, st', log) \<longrightarrow>
         user st' = None \<and> session st' = None)"
proof -
  have "reply \<noteq> Pending \<longrightarrow>
      (\<exists>r log. signOut reply st = Some (r, st\<lparr>user := None, session := None\<rparr>, log))"
    using signOut_settled [of reply st] by blast
  moreover have "\<forall>r st' log. signOut reply st = Some (r, st', log) \<longrightarrow>
         user st' = None \<and> session st' = None"
    by (auto dest: signOut_completed)
  ultimately show ?thesis by blast
qed

text \<open>A signed-in user whose remote sign-out throws.\<close>

theorem signOut_clears_local_state_witness:
  "user signed_in \<noteq> None \<and> session signed_in \<noteq> None
   \<and> (\<exists>r log. signOut (Threw (JsError (Some ''Failed to fetch''))) signed_in =
          Some (r, \<lparr>user = None, session = None\<rparr>, log))"
  using signOut_clears_local_state [of "Threw (JsError (Some ''Failed to fetch''))" signed_in]
  by (simp add: signed_in_def)

text \<open>
  C10, as amended. The promise of \<open>signOut\<close> never rejects, and it resolves whenever the
  remote sign-out settles: a returned error and a thrown exception are both caught
  inside. While the remote sign-out stays pending, the promise of \<open>signOut\<close> stays
  pending with it.
\<close>

theorem signOut_never_rejects:
  "(\<forall>e st' log. signOut reply st \<noteq> Some (Inl e, st', log))
   \<and> (reply \<noteq> Pending \<longrightarrow> (\<exists>st' log. signOut reply st = Some (Inr (), st', log)))
   \<and> (reply = Pending \<longrightarrow> signOut reply st = None)"
proof (intro conjI impI allI)
  fix e st' log
  show "signOut reply st \<noteq> Some (Inl e, st', log)"
  proof
    assume "signOut reply st = Some (Inl e, st', log)"
    from signOut_completed [OF this] show False by simp
  qed
next
  assume "reply \<noteq> Pending"
  from signOut_settled [OF this, of st]
  show "\<exists>st' log. signOut reply st = Some (Inr (), st', log)" by blast
next
  assume "reply = Pending"
  then show "signOut reply st = None" by (simp add: signOut_pending)
qed

text \<open>A remote sign-out that comes back with an error.\<close>

theorem signOut_never_rejects_witness:
  "\<exists>st' log. signOut (Replied (JsError (Some ''session not found''))) signed_in =
      Some (Inr (), st', log)"
  using signOut_never_rejects [of "Replied (JsError (Some ''session not found''))" signed_in]
  by simp

text \<open>
  C10 as stated fails where the remote sign-out never settles: the promise of
  \<open>signOut\<close> then neither resolves nor rejects.
\<close>

theorem signOut_pending_counterexample:
  "signOut Pending signed_in = None"
  by (simp add: signOut_def)

section \<open>Properties of supabaseOperation\<close>

text \<open>
  With at least one attempt left, what the loop throws is the value of a rejection of
  the operation; with none left it is the current \<open>lastError\<close>.
\<close>

lemma truthy_not_nullish: "truthy_value v \<Longrightarrow> \<not> nullish v"
  by (cases v) simp_all




lemma withRetry_default_resolves:
  assumes "N \<le> 4"
    and "\<forall>k<N. isl (settle w (calls w + k))"
    and "settle w (calls w + N) = Inr v"
    and "\<forall>k\<le>N. net w (checks w + k) \<noteq> Offline_forever"
  shows "\<exists>w'. withRetry_default q w = Some (Inr v, w')"
proof -
  have lt: "0 + N < 5" using assms(1) by simp
  have errs: "\<forall>k<N. settle w (calls w + k) = Inl (projl (settle w (calls w + k)))"
    using assms(2) by simp
  show ?thesis
    unfolding withRetry_default_def withRetry_def
    retry_loop_succeeds [OF lt errs assms(3) assms(4)] by simp
qed

lemma supabaseOperation_offline:
  "net w (checks w) \<noteq> Online \<Longrightarrow>
   supabaseOperation truthy q label w = Some (Inl offline_error, w\<lparr>checks := Suc (checks w)\<rparr>)"
  by (simp add: supabaseOperation_def checkOnline_def)

lemma supabaseOperation_online:
  "net w (checks w) = Online \<Longrightarrow>
   supabaseOperation truthy q label w =
     (case operation_try truthy q label (w\<lparr>checks := Suc (checks w)\<rparr>) of
        None \<Rightarrow> None
      | Some (Inr d, w1) \<Rightarrow> Some (Inr d, w1)
      | Some (Inl thrown, w1) \<Rightarrow>
          (case operation_catch label thrown w1 of (e, w2) \<Rightarrow> Some (Inl e, w2)))"
  by (simp add: supabaseOperation_def checkOnline_def)

text \<open>
  What \<open>supabaseOperation\<close> does with the result the thunk resolves with, the device
  being online at the call and the thunk resolving after at most four rejections.
\<close>

lemma supabaseOperation_resolved:
  assumes "net w (checks w) = Online" and "N \<le> 4"
    and "\<forall>k<N. isl (settle w (calls w + k))"
    and "settle w (calls w + N) = Inr res"
    and "\<forall>k\<le>N. net w (Suc (checks w) + k) \<noteq> Offline_forever"
  shows "\<exists>w1 w2. supabaseOperation truthy q label w =
           (if truthy_value (error res)
            then Some (Inl (JsError (Some (label @ '': '' @ message_or_default (error res)))), w2)
            else
              (case data res of
                 None \<Rightarrow>
                   Some (Inl (JsError (Some (label @ '': No data returned from server''))), w2)
               | Some d \<Rightarrow>
                   if truthy d then Some (Inr d, w1)
                   else Some (Inl (JsError (Some (label @ '': No data returned from server''))), w2)))"
proof -
  let ?w0 = "w\<lparr>checks := Suc (checks w)\<rparr>"
  have "\<exists>w1. withRetry_default q ?w0 = Some (Inr res, w1)"
    by (rule withRetry_default_resolves [of N]) (use assms in simp_all)
  then obtain w1 where run: "withRetry_default q ?w0 = Some (Inr res, w1)" ..
  note unf = supabaseOperation_online [OF assms(1)]
  show ?thesis
  proof (cases "truthy_value (error res)")
    case True
    then have "\<not> nullish (error res)" by (rule truthy_not_nullish)
    with True show ?thesis
      unfolding unf by (simp add: operation_try_def run operation_catch_def)
  next
    case False
    show ?thesis
    proof (cases "data res")
      case None
      show ?thesis
        unfolding unf
        by (simp add: None False operation_try_def run operation_catch_def no_data_error_def)
    next
      case (Some d)
      show ?thesis
      proof (cases "truthy d")
        case True
        show ?thesis
          unfolding unf by (simp add: False Some True operation_try_def run)
      next
        case nd: False
        show ?thesis
          unfolding unf
          by (simp add: False Some nd operation_try_def run operation_catch_def
                no_data_error_def)
      qed
    qed
  qed
qed

text \<open>
  C4. Where \<open>data\<close> is present but falsy the code departs from the claim: the device
  is online, the thunk resolves at once with no error and \<open>data = 0\<close>, and
  \<open>supabaseOperation\<close> raises "No data returned from server" under the label and does
  not return the 0.
\<close>

theorem supabaseOperation_falsy_data:
  "net zero_world 0 = Online
   \<and> settle zero_world 0 = Inr \<lparr>data = Some 0, error = JsNull\<rparr>
   \<and> map_option fst (supabaseOperation (\<lambda>n. n \<noteq> 0) ''count'' ''Error counting photos'' zero_world) =
       Some (Inl (JsError (Some ''Error counting photos: No data returned from server'')))"
proof -
  have "\<exists>w2. supabaseOperation (\<lambda>n. n \<noteq> 0) ''count'' ''Error counting photos'' zero_world =
          Some (Inl (JsError (Some (''Error counting photos'' @ '': No data returned from server''))), w2)"
    using supabaseOperation_resolved [of zero_world 0 "\<lparr>data = Some 0, error = JsNull\<rparr>"
        "\<lambda>n. n \<noteq> 0" "''count''" "''Error counting photos''"]
    by (simp add: zero_world_def)
  then show ?thesis
    by (auto simp: zero_world_def)
qed




text \<open>
  The case the amended C5 leaves out: a thunk whose five rejections carry \<open>undefined\<close>
  makes the \<open>catch\<close> block raise the TypeError of reading \<open>message\<close>, which has no label.
\<close>

lemma supabaseOperation_nullish_rejection:
  assumes "net w (checks w) = Online"
    and "\<forall>k<5. settle w (calls w + k) = Inl JsUndefined"
    and "\<forall>k<5. net w (Suc (checks w) + k) \<noteq> Offline_forever"
  shows "map_option fst (supabaseOperation truthy q label w) =
           Some (Inl (type_error_reading JsUndefined ''message''))"
proof -
  let ?w0 = "w\<lparr>checks := Suc (checks w)\<rparr>"
  have five: "0 + 5 = (5::nat)" by simp
  have r: "\<forall>k<5. settle ?w0 (calls ?w0 + k) = Inl ((\<lambda>k. JsUndefined) k)"
    using assms(2) by simp
  have g: "\<forall>k<5. net ?w0 (checks ?w0 + k) \<noteq> Offline_forever"
    using assms(3) by simp
  have "\<exists>w1. withRetry_default q ?w0 = Some (Inl JsUndefined, w1)"
    unfolding withRetry_default_def withRetry_def
    using retry_loop_exhausts [OF five r g, of q 1000 JsUndefined] by simp
  then obtain w1 where "withRetry_default q ?w0 = Some (Inl JsUndefined, w1)" ..
  then show ?thesis
    by (simp add: supabaseOperation_online [OF assms(1)] operation_try_def operation_catch_def)
qed

section \<open>The calls of a run\<close>

lemma invocations_Nil [simp]: "invocations [] = []"
  by (simp add: invocations_def)

lemma invocations_Cons [simp]:
  "invocations (ev # evs) = (case ev of Invoke q \<Rightarrow> [q] | _ \<Rightarrow> []) @ invocations evs"
  by (simp add: invocations_def)

lemma invocations_append [simp]:
  "invocations (xs @ ys) = invocations xs @ invocations ys"
  by (simp add: invocations_def)

lemma retry_loop_trace:
  "retry_loop q m b i le w = Some (r, w') \<Longrightarrow>
   \<exists>evs. trace w' = trace w @ evs \<and> set (invocations evs) \<subseteq> {q}"
proof (induction q m b i le w rule: retry_loop.induct)
  case (1 q maxRetries baseDelay i lastError w)
  show ?case
  proof (cases "i < maxRetries")
    case False
    with "1.prems" have "w' = w"
      by (subst (asm) retry_loop.simps) simp
    then show ?thesis by simp
  next
    case True
    from True obtain w1 where gate: "online_gate w = Some w1"
      using "1.prems" by (subst (asm) retry_loop.simps) (auto split: option.splits)
    have t1: "\<exists>evs. trace w1 = trace w @ evs \<and> invocations evs = []"
      using gate
      by (auto simp: online_gate_def checkOnline_def emit_def split: net.splits)
    obtain o2 w2 where inv: "invoke q w1 = (o2, w2)" by (cases "invoke q w1")
    then have t2: "trace w2 = trace w1 @ [Invoke q]"
      by (auto simp: invoke_def emit_def)
    show ?thesis
    proof (cases o2)
      case (Inr v)
      with "1.prems" True gate inv have "w' = w2"
        by (subst (asm) retry_loop.simps) simp
      with t1 t2 show ?thesis by (auto)
    next
      case (Inl e)
      let ?w3 = "if i < maxRetries - 1 then emit (Backoff (baseDelay * 2 ^ i)) w2 else w2"
      have rec: "retry_loop q maxRetries baseDelay (Suc i) e ?w3 = Some (r, w')"
        using "1.prems" True gate inv Inl
        by (subst (asm) retry_loop.simps) simp
      from "1.IH" [OF True gate _ _ rec] inv Inl
      obtain evs where e3: "trace w' = trace ?w3 @ evs" "set (invocations evs) \<subseteq> {q}"
        by auto
      have t3: "\<exists>bs. trace ?w3 = trace w2 @ bs \<and> invocations bs = []"
        by (simp add: emit_def)
      from t1 t2 t3 e3 show ?thesis
        by (auto)
    qed
  qed
qed

lemma supabaseOperation_trace:
  assumes "supabaseOperation truthy q label w = Some (r, w')"
  shows "\<exists>evs. trace w' = trace w @ evs \<and> set (invocations evs) \<subseteq> {q}"
proof (cases "net w (checks w) = Online")
  case False
  with assms have "w' = w\<lparr>checks := Suc (checks w)\<rparr>"
    by (simp add: supabaseOperation_offline)
  then show ?thesis by simp
next
  case True
  let ?w0 = "w\<lparr>checks := Suc (checks w)\<rparr>"
  from assms True obtain r1 w1 where run: "withRetry_default q ?w0 = Some (r1, w1)"
    by (auto simp: supabaseOperation_def checkOnline_def operation_try_def
          split: option.splits)
  from retry_loop_trace [OF run [unfolded withRetry_default_def withRetry_def]]
  obtain evs where e1: "trace w1 = trace w @ evs" "set (invocations evs) \<subseteq> {q}"
    by auto
  from assms True run have "\<exists>cs. trace w' = trace w1 @ cs \<and> invocations cs = []"
    by (auto simp: supabaseOperation_def checkOnline_def operation_try_def operation_catch_def
          emit_def
          split: option.splits sum.splits prod.splits if_splits)
  with e1 show ?thesis
    by (auto)
qed

lemma fetchMedia_trace:
  assumes "fetchMedia usr (g, w) = Some (r, g', w')"
  shows "\<exists>evs. trace w' = trace w @ evs
     \<and> set (invocations evs) \<subseteq> (case usr of None \<Rightarrow> {} | Some u \<Rightarrow> {Row_query (media_query u (currentFolder g))})"
proof (cases usr)
  case None
  with assms show ?thesis by (simp add: fetchMedia_def)
next
  case (Some u)
  from assms Some obtain r1 w1 where
    op: "supabaseOperation (\<lambda>d. True) (Row_query (media_query u (currentFolder g)))
           ''Error fetching media'' w = Some (r1, w1)"
    by (auto simp: fetchMedia_def split: option.splits)
  from supabaseOperation_trace [OF op] obtain evs where
    e1: "trace w1 = trace w @ evs"
        "set (invocations evs) \<subseteq> {Row_query (media_query u (currentFolder g))}"
    by auto
  from assms Some op have "\<exists>cs. trace w' = trace w1 @ cs \<and> invocations cs = []"
    by (auto simp: fetchMedia_def emit_def split: sum.splits)
  with e1 Some show ?thesis
    by (auto)
qed

lemma fetchFolders_trace:
  assumes "fetchFolders usr (g, w) = Some (r, g', w')"
  shows "\<exists>evs. trace w' = trace w @ evs
     \<and> set (invocations evs) \<subseteq> (case usr of None \<Rightarrow> {} | Some u \<Rightarrow> {Row_query (folders_query u)})"
proof (cases usr)
  case None
  with assms show ?thesis by (simp add: fetchFolders_def)
next
  case (Some u)
  from assms Some obtain r1 w1 where
    op: "supabaseOperation (\<lambda>d. True) (Row_query (folders_query u))
           ''Error fetching folders'' w = Some (r1, w1)"
    by (auto simp: fetchFolders_def split: option.splits)
  from supabaseOperation_trace [OF op] obtain evs where
    e1: "trace w1 = trace w @ evs"
        "set (invocations evs) \<subseteq> {Row_query (folders_query u)}"
    by auto
  from assms Some op have "\<exists>cs. trace w' = trace w1 @ cs \<and> invocations cs = []"
    by (auto simp: fetchFolders_def emit_def split: sum.splits)
  with e1 Some show ?thesis
    by (auto)
qed

lemma invocations_success_events:
  assumes "i + N < m"
  shows "invocations (failed_events q m b nt c i N @ gate_events n @ [Invoke q]) = replicate (N + 1) q"
proof -
  have "invocations (without_awaits (failed_events q m b nt c i N @ gate_events n @ [Invoke q])) =
        replicate (N + 1) q"
    using invocations_attempts [of q "\<lambda>k. b * 2 ^ (i + k)" "[0..<N]"]
    by (simp only: without_awaits_append without_awaits_gate without_awaits_failed [OF assms])
       (simp add: without_awaits_def)
  then show ?thesis by (simp only: invocations_without_awaits)
qed

lemma supabaseOperation_resolved_trace:
  assumes "net w (checks w) = Online" and "N \<le> 4"
    and "\<forall>k<N. isl (settle w (calls w + k))"
    and "settle w (calls w + N) = Inr res"
    and "\<forall>k\<le>N. net w (Suc (checks w) + k) \<noteq> Offline_forever"
  shows "\<exists>r w' evs. supabaseOperation truthy q label w = Some (r, w')
           \<and> trace w' = trace w @ evs \<and> invocations evs = replicate (N + 1) q"
proof -
  let ?w0 = "w\<lparr>checks := Suc (checks w)\<rparr>"
  let ?evs = "failed_events q 5 1000 (net ?w0) (checks ?w0) 0 N
                @ gate_events (net ?w0 (checks ?w0 + N)) @ [Invoke q]"
  let ?w1 = "?w0\<lparr>checks := checks ?w0 + N + 1, calls := calls ?w0 + N + 1,
                 trace := trace ?w0 @ ?evs\<rparr>"
  have lt: "0 + N < 5" using assms(2) by simp
  have errs: "\<forall>k<N. settle ?w0 (calls ?w0 + k) = Inl (projl (settle ?w0 (calls ?w0 + k)))"
    using assms(3) by simp
  have res: "settle ?w0 (calls ?w0 + N) = Inr res" using assms(4) by simp
  have gates: "\<forall>k\<le>N. net ?w0 (checks ?w0 + k) \<noteq> Offline_forever" using assms(5) by simp
  have run: "withRetry_default q ?w0 = Some (Inr res, ?w1)"
    unfolding withRetry_default_def withRetry_def
    by (rule retry_loop_succeeds [OF lt errs res gates])
  have inv: "invocations ?evs = replicate (N + 1) q"
    by (rule invocations_success_events [OF lt])
  have "\<exists>r w' cs. supabaseOperation truthy q label w = Some (r, w')
           \<and> trace w' = trace ?w1 @ cs \<and> invocations cs = []"
    using assms(1)
    by (auto simp: supabaseOperation_def checkOnline_def operation_try_def run
          operation_catch_def emit_def split: option.splits)
  then obtain r w' cs where
    "supabaseOperation truthy q label w = Some (r, w')" "trace w' = trace w @ ?evs @ cs"
    "invocations cs = []"
    by auto
  with inv show ?thesis
    by (intro exI [of _ r] exI [of _ w'] exI [of _ "?evs @ cs"]) simp
qed

section \<open>Properties of the gallery view\<close>

text \<open>
  C9. The query that \<open>fetchMedia\<close> builds has, on \<open>folder_id\<close>, the single condition
  IS NULL when \<open>currentFolder\<close> is \<open>null\<close>, and the single condition of equality with
  the id when \<open>currentFolder\<close> is a (non-empty) folder id. Whatever \<open>fetchMedia\<close> issues
  in a run is that query, and with a device that is online and a backend that answers
  it issues it exactly once.
\<close>

theorem fetchMedia_folder_condition:
  "(currentFolder g = None \<longrightarrow>
      folder_condition (media_query u (currentFolder g)) = [Is_null ''folder_id''])
   \<and> (\<forall>f. currentFolder g = Some f \<and> f \<noteq> [] \<longrightarrow>
         folder_condition (media_query u (currentFolder g)) = [Eq ''folder_id'' f])
   \<and> (\<forall>r g' w'. fetchMedia (Some u) (g, w) = Some (r, g', w') \<longrightarrow>
         (\<exists>evs. trace w' = trace w @ evs
            \<and> set (invocations evs) \<subseteq> {Row_query (media_query u (currentFolder g))}))
   \<and> (net w (checks w) = Online \<and> net w (Suc (checks w)) \<noteq> Offline_forever
        \<and> settle w (calls w) = Inr res \<longrightarrow>
         (\<exists>r g' w' evs. fetchMedia (Some u) (g, w) = Some (r, g', w')
            \<and> trace w' = trace w @ evs
            \<and> invocations evs = [Row_query (media_query u (currentFolder g))]))"
proof (intro conjI allI impI)
  assume "currentFolder g = None"
  then show "folder_condition (media_query u (currentFolder g)) = [Is_null ''folder_id'']"
    by (simp add: folder_condition_def media_query_def filter_is_null_def order_desc_def
          eq_def from_table_def)
next
  fix f assume "currentFolder g = Some f \<and> f \<noteq> []"
  then show "folder_condition (media_query u (currentFolder g)) = [Eq ''folder_id'' f]"
    by (simp add: folder_condition_def media_query_def filter_is_null_def order_desc_def
          eq_def from_table_def)
next
  fix r g' w' assume "fetchMedia (Some u) (g, w) = Some (r, g', w')"
  from fetchMedia_trace [OF this]
  show "\<exists>evs. trace w' = trace w @ evs
          \<and> set (invocations evs) \<subseteq> {Row_query (media_query u (currentFolder g))}"
    by simp
next
  let ?q = "Row_query (media_query u (currentFolder g))"
  assume a: "net w (checks w) = Online \<and> net w (Suc (checks w)) \<noteq> Offline_forever
        \<and> settle w (calls w) = Inr res"
  have "\<exists>r w' evs. supabaseOperation (\<lambda>d. True) ?q ''Error fetching media'' w = Some (r, w')
           \<and> trace w' = trace w @ evs \<and> invocations evs = replicate (0 + 1) ?q"
    by (rule supabaseOperation_resolved_trace [of w 0 res]) (use a in simp_all)
  then obtain r1 w1 evs where op:
    "supabaseOperation (\<lambda>d. True) ?q ''Error fetching media'' w = Some (r1, w1)"
    "trace w1 = trace w @ evs" "invocations evs = [?q]"
    by auto
  show "\<exists>r g' w' evs. fetchMedia (Some u) (g, w) = Some (r, g', w')
            \<and> trace w' = trace w @ evs \<and> invocations evs = [?q]"
  proof (cases r1)
    case (Inr d)
    with op show ?thesis
      by (intro exI [of _ "Inr ()"] exI [of _ "g\<lparr>media := d\<rparr>"] exI [of _ w1] exI [of _ evs])
         (simp add: fetchMedia_def)
  next
    case (Inl e)
    with op show ?thesis
      by (intro exI [of _ "Inl e"] exI [of _ g]
            exI [of _ "emit (Console_error ''Error fetching media:'' e) w1"]
            exI [of _ "evs @ [Console_error ''Error fetching media:'' e]"])
         (simp add: fetchMedia_def emit_def)
  qed
qed

text \<open>The root and the folder \<open>f1\<close>.\<close>

theorem fetchMedia_folder_condition_witness:
  "folder_condition (media_query alice None) = [Is_null ''folder_id'']
   \<and> folder_condition (media_query alice (Some ''f1'')) = [Eq ''folder_id'' ''f1'']
   \<and> (\<exists>r g' w' evs. fetchMedia (Some alice) (gallery0\<lparr>currentFolder := Some ''f1''\<rparr>, rows_world) =
          Some (r, g', w')
        \<and> trace w' = evs
        \<and> invocations evs = [Row_query (media_query alice (Some ''f1''))])"
proof -
  have on: "net rows_world (checks rows_world) = Online
      \<and> net rows_world (Suc (checks rows_world)) \<noteq> Offline_forever
      \<and> settle rows_world (calls rows_world) = Inr \<lparr>data = Some (Rows []), error = JsNull\<rparr>"
    by (simp add: rows_world_def)
  have t0: "trace rows_world = []" by (simp add: rows_world_def)
  from fetchMedia_folder_condition [of gallery0 alice rows_world]
  have 1: "folder_condition (media_query alice None) = [Is_null ''folder_id'']"
    by (simp add: gallery0_def)
  from fetchMedia_folder_condition
    [of "gallery0\<lparr>currentFolder := Some ''f1''\<rparr>" alice rows_world
        "\<lparr>data = Some (Rows []), error = JsNull\<rparr>"] on
  have 2: "folder_condition (media_query alice (Some ''f1'')) = [Eq ''folder_id'' ''f1'']
     \<and> (\<exists>r g' w' evs. fetchMedia (Some alice) (gallery0\<lparr>currentFolder := Some ''f1''\<rparr>, rows_world) =
          Some (r, g', w')
        \<and> trace w' = evs
        \<and> invocations evs = [Row_query (media_query alice (Some ''f1''))])"
    by (simp add: t0)
  from 1 2 show ?thesis by blast
qed

lemma await_call_eq:
  "await_call c w =
     (settled (settle w (calls w)), w\<lparr>calls := Suc (calls w), trace := trace w @ [Invoke c]\<rparr>)"
  by (simp add: await_call_def invoke_def emit_def)

lemma settled_failed: "call_failed outcome \<longleftrightarrow> isl (settled outcome)"
  by (simp add: call_failed_def settled_def split: sum.split option.split)

lemma deleteFolder_failed:
  assumes "usr \<noteq> None" and "confirmed" and "call_failed (settle w (calls w))"
  shows "\<exists>evs. trace (snd (deleteFolder usr confirmed folderId (g, w))) = trace w @ evs
     \<and> invocations evs = [Row_query (photos_of_folder_delete folderId)]"
  using assms
  by (auto simp: deleteFolder_def await_call_eq settled_failed delete_folder_catch_def emit_def
        split: sum.splits)

lemma deleteFolder_done:
  assumes "usr \<noteq> None" and "confirmed" and "\<not> call_failed (settle w (calls w))"
  shows "\<exists>evs. trace (snd (deleteFolder usr confirmed folderId (g, w))) = trace w @ evs
     \<and> invocations evs =
         [Row_query (photos_of_folder_delete folderId), Row_query (folder_delete folderId)]"
  using assms
  by (auto simp: deleteFolder_def await_call_eq settled_failed delete_folder_catch_def emit_def
        split: sum.splits)

lemma deleteFolder_skipped:
  assumes "usr = None \<or> \<not> confirmed"
  shows "deleteFolder usr confirmed folderId (g, w) = (g, w)"
  using assms by (auto simp: deleteFolder_def)

lemma photos_deleted:
  assumes "\<not> call_failed outcome"
  shows "\<forall>r \<in> set (store_step (Row_query (photos_of_folder_delete folderId)) outcome st ''photos'').
           \<not> matches r (Eq ''folder_id'' folderId)"
  using assms
  by (auto simp: call_failed_def store_step_def photos_of_folder_delete_def eq_def from_table_def
        split: sum.splits)

lemma folder_deleted:
  assumes "\<not> call_failed o1" and "\<not> call_failed o2"
  shows "\<forall>r \<in> set (store_step (Row_query (folder_delete folderId)) o2
                    (store_step (Row_query (photos_of_folder_delete folderId)) o1 st) ''folders'').
           \<not> matches r (Eq ''id'' folderId)"
  using assms
  by (auto simp: call_failed_def store_step_def photos_of_folder_delete_def folder_delete_def
        eq_def from_table_def split: sum.splits)

lemma delete_calls_differ:
  "folder_delete folderId \<noteq> photos_of_folder_delete folderId"
  by (simp add: folder_delete_def photos_of_folder_delete_def eq_def from_table_def)

lemma failed_delete_keeps_store:
  "call_failed outcome \<Longrightarrow> store_step c outcome st = st"
  by (auto simp: store_step_def call_failed_def split: sum.splits backend_call.splits)

text \<open>
  C7. Without a signed-in user or without the confirmation \<open>deleteFolder\<close> does
  nothing. Otherwise it first issues the delete of the folder's photos. When that
  delete fails, it is the only backend call: the delete of the folder row is not
  issued and the rows of \<open>folders\<close> are what they were. When it succeeds, the calls are
  that delete followed by the delete of the folder row, the row store holds no photo of
  the folder when the folder delete is issued, and once the folder delete succeeds too
  the folder row is gone.
\<close>

theorem deleteFolder_order:
  "\<exists>evs. trace (snd (deleteFolder usr confirmed folderId (g, w))) = trace w @ evs
     \<and> (usr = None \<or> \<not> confirmed \<longrightarrow> evs = [])
     \<and> (usr \<noteq> None \<and> confirmed \<and> call_failed (settle w (calls w)) \<longrightarrow>
          invocations evs = [Row_query (photos_of_folder_delete folderId)]
          \<and> Alert ''Error deleting folder'' \<in> set evs)
     \<and> (usr \<noteq> None \<and> confirmed \<and> \<not> call_failed (settle w (calls w)) \<longrightarrow>
          invocations evs =
            [Row_query (photos_of_folder_delete folderId), Row_query (folder_delete folderId)]
          \<and> (\<forall>r \<in> set (store_step (Row_query (photos_of_folder_delete folderId))
                            (settle w (calls w)) st ''photos'').
                \<not> matches r (Eq ''folder_id'' folderId))
          \<and> (\<not> call_failed (settle w (Suc (calls w))) \<longrightarrow>
                (\<forall>r \<in> set (store_after (settle w) (calls w) (invocations evs) st ''folders'').
                   \<not> matches r (Eq ''id'' folderId))))
     \<and> (call_failed (settle w (calls w)) \<longrightarrow>
          Row_query (folder_delete folderId) \<notin> set (invocations evs)
          \<and> store_after (settle w) (calls w) (invocations evs) st ''folders'' = st ''folders'')"
proof (cases "usr = None \<or> \<not> confirmed")
  case True
  then show ?thesis
    by (intro exI [of _ "[]"]) (auto simp: deleteFolder_skipped)
next
  case False
  then have u: "usr \<noteq> None" and c: "confirmed" by simp_all
  show ?thesis
  proof (cases "call_failed (settle w (calls w))")
    case True
    let ?evs = "[Invoke (Row_query (photos_of_folder_delete folderId)),
                 Console_error ''Error deleting folder:'' (projl (settled (settle w (calls w)))),
                 Alert ''Error deleting folder'']"
    have "trace (snd (deleteFolder usr confirmed folderId (g, w))) = trace w @ ?evs"
      using u c True
      by (auto simp: deleteFolder_def await_call_eq settled_failed delete_folder_catch_def
            emit_def split: sum.splits)
    with u c True show ?thesis
      by (intro exI [of _ ?evs])
         (simp add: delete_calls_differ failed_delete_keeps_store)
  next
    case False
    from deleteFolder_done [OF u c False, of folderId g] obtain evs where
      e: "trace (snd (deleteFolder usr confirmed folderId (g, w))) = trace w @ evs"
         "invocations evs =
           [Row_query (photos_of_folder_delete folderId), Row_query (folder_delete folderId)]"
      by blast
    have "\<not> call_failed (settle w (Suc (calls w))) \<longrightarrow>
            (\<forall>r \<in> set (store_after (settle w) (calls w) (invocations evs) st ''folders'').
               \<not> matches r (Eq ''id'' folderId))"
      unfolding e(2) using folder_deleted [OF False, of "settle w (Suc (calls w))" folderId st]
      by simp
    with e u c False photos_deleted [OF False, of folderId st] show ?thesis
      by (intro exI [of _ evs]) auto
  qed
qed

text \<open>
  A folder with three photos: when the backend refuses the first delete the folder row
  stays; when it accepts, the three photos are gone before the folder delete.
\<close>

theorem deleteFolder_order_witness:
  "(\<exists>evs. trace (snd (deleteFolder (Some alice) True ''f1'' (gallery0, denied_world))) = evs
      \<and> invocations evs = [Row_query (photos_of_folder_delete ''f1'')]
      \<and> store_after (settle denied_world) 0 (invocations evs) store0 ''folders'' =
          [[(''id'', Some ''f1''), (''name'', Some ''Trip'')]])
   \<and> (\<exists>evs. trace (snd (deleteFolder (Some alice) True ''f1'' (gallery0, ok_world))) = evs
      \<and> invocations evs =
          [Row_query (photos_of_folder_delete ''f1''), Row_query (folder_delete ''f1'')]
      \<and> store_step (Row_query (photos_of_folder_delete ''f1'')) (settle ok_world 0) store0 ''photos'' =
          [[(''id'', Some ''p4''), (''folder_id'', None)]]
      \<and> store_after (settle ok_world) 0 (invocations evs) store0 ''folders'' = [])"
proof -
  have d: "call_failed (settle denied_world (calls denied_world))"
    "trace denied_world = []" "calls denied_world = 0"
    by (simp_all add: denied_world_def call_failed_def)
  have k: "\<not> call_failed (settle ok_world (calls ok_world))"
    "trace ok_world = []" "calls ok_world = 0"
    by (simp_all add: ok_world_def call_failed_def)
  have s0: "store0 ''folders'' = [[(''id'', Some ''f1''), (''name'', Some ''Trip'')]]"
    by (simp add: store0_def)
  have s1: "store_step (Row_query (photos_of_folder_delete ''f1'')) (settle ok_world 0) store0 ''photos'' =
          [[(''id'', Some ''p4''), (''folder_id'', None)]]"
    by (simp add: store_step_def ok_world_def store0_def photos_of_folder_delete_def eq_def
          from_table_def)
  have k2: "\<not> call_failed (settle ok_world (Suc 0))"
    by (simp add: ok_world_def call_failed_def)
  have s2: "store_step (Row_query (folder_delete ''f1'')) (settle ok_world (Suc 0))
              (store_step (Row_query (photos_of_folder_delete ''f1'')) (settle ok_world 0) store0)
              ''folders'' = []"
    by (simp add: store_step_def ok_world_def store0_def photos_of_folder_delete_def
          folder_delete_def eq_def from_table_def)
  from deleteFolder_order [of "Some alice" True "''f1''" gallery0 denied_world store0] d
  have 1: "\<exists>evs. trace (snd (deleteFolder (Some alice) True ''f1'' (gallery0, denied_world))) = evs
      \<and> invocations evs = [Row_query (photos_of_folder_delete ''f1'')]
      \<and> store_after (settle denied_world) 0 (invocations evs) store0 ''folders'' =
          [[(''id'', Some ''f1''), (''name'', Some ''Trip'')]]"
    by (auto simp: s0)
  from deleteFolder_order [of "Some alice" True "''f1''" gallery0 ok_world store0] k
  have 2: "\<exists>evs. trace (snd (deleteFolder (Some alice) True ''f1'' (gallery0, ok_world))) = evs
      \<and> invocations evs =
          [Row_query (photos_of_folder_delete ''f1''), Row_query (folder_delete ''f1'')]
      \<and> store_step (Row_query (photos_of_folder_delete ''f1'')) (settle ok_world 0) store0 ''photos'' =
          [[(''id'', Some ''p4''), (''folder_id'', None)]]
      \<and> store_after (settle ok_world) 0 (invocations evs) store0 ''folders'' = []"
    by (auto simp: s1 s2 k2)
  from 1 2 show ?thesis by blast
qed

lemma handleFileUpload_too_large:
  assumes "fsize file > maxSize file"
  shows "handleFileUpload usr (Some file) random (g, w) =
          (g, emit (case usr of None \<Rightarrow> Navigate ''/login'' | Some u \<Rightarrow> Alert (too_large_alert file)) w)"
  using assms by (simp add: handleFileUpload_def split: option.split)

lemma handleFileUpload_upload_failed:
  assumes "fsize file \<le> maxSize file" and "call_failed (settle w (calls w))"
  shows "\<exists>e. snd (handleFileUpload (Some u) (Some file) random (g, w)) =
           w\<lparr>calls := Suc (calls w),
              trace := trace w @ [Invoke (Storage_upload (upload_path u file random)),
                                  Console_error ''Error uploading file:'' e,
                                  Alert ''Error uploading file'']\<rparr>"
  using assms
  by (auto simp: handleFileUpload_def await_call_eq settled_failed upload_catch_def emit_def
        upload_path_def Let_def split: sum.splits)

lemma handleFileUpload_insert_failed:
  assumes "fsize file \<le> maxSize file"
    and "settle w (calls w) = Inr res" and "\<not> truthy_value (error res)"
    and "data res = Some (Stored p)"
    and "call_failed (settle w (Suc (calls w)))"
  shows "\<exists>e. snd (handleFileUpload (Some u) (Some file) random (g, w)) =
           w\<lparr>calls := Suc (Suc (calls w)),
              trace := trace w @ [Invoke (Storage_upload (upload_path u file random)),
                                  Invoke (insert_call u file (Some p) (currentFolder g)),
                                  Console_error ''Error uploading file:'' e,
                                  Alert ''Error uploading file'']\<rparr>"
  using assms
  by (auto simp: handleFileUpload_def await_call_eq settled_failed upload_catch_def emit_def
        upload_path_def insert_call_def Let_def settled_def split: sum.splits)

lemma handleFileUpload_done:
  assumes "fsize file \<le> maxSize file"
    and "settle w (calls w) = Inr res" and "\<not> truthy_value (error res)"
    and "data res = Some (Stored p)"
    and "\<not> call_failed (settle w (Suc (calls w)))"
  shows "snd (handleFileUpload (Some u) (Some file) random (g, w)) =
           w\<lparr>calls := Suc (Suc (calls w)),
              trace := trace w @ [Invoke (Storage_upload (upload_path u file random)),
                                  Invoke (insert_call u file (Some p) (currentFolder g)),
                                  Spawn ''fetchMedia'']\<rparr>"
  using assms
  by (auto simp: handleFileUpload_def await_call_eq settled_failed upload_catch_def emit_def
        upload_path_def insert_call_def Let_def settled_def split: sum.splits)

text \<open>
  C8. A file that is not a video and is larger than 5MB, or a video larger than 50MB, is
  turned down with no backend call (with an alert when a user is signed in, with the
  redirect to the login page otherwise). For an accepted file, with a user signed in:
  if the upload fails there is the one upload call, an alert and nothing more; if the upload succeeds and the insert fails there are the upload call and the
  insert call, an alert and no refresh; if both succeed the run is exactly one upload
  call, then one insert call, then the refresh of the media list.
\<close>

theorem handleFileUpload_gate_and_steps:
  "\<exists>evs. trace (snd (handleFileUpload usr (Some file) random (g, w))) = trace w @ evs
     \<and> ((\<not> prefix ''video/'' (ftype file) \<and> fsize file > 5 * 1024 * 1024
          \<or> prefix ''video/'' (ftype file) \<and> fsize file > 50 * 1024 * 1024) \<longrightarrow>
           invocations evs = [] \<and> (usr \<noteq> None \<longrightarrow> evs = [Alert (too_large_alert file)]))
     \<and> (\<forall>u. usr = Some u \<and> fsize file \<le> maxSize file \<longrightarrow>
           (call_failed (settle w (calls w)) \<longrightarrow>
              invocations evs = [Storage_upload (upload_path u file random)]
              \<and> Alert ''Error uploading file'' \<in> set evs \<and> Spawn ''fetchMedia'' \<notin> set evs)
         \<and> (\<forall>res p. settle w (calls w) = Inr res \<and> \<not> truthy_value (error res)
                  \<and> data res = Some (Stored p) \<longrightarrow>
              (call_failed (settle w (Suc (calls w))) \<longrightarrow>
                 invocations evs = [Storage_upload (upload_path u file random),
                                    insert_call u file (Some p) (currentFolder g)]
                 \<and> Alert ''Error uploading file'' \<in> set evs \<and> Spawn ''fetchMedia'' \<notin> set evs)
            \<and> (\<not> call_failed (settle w (Suc (calls w))) \<longrightarrow>
                 evs = [Invoke (Storage_upload (upload_path u file random)),
                        Invoke (insert_call u file (Some p) (currentFolder g)),
                        Spawn ''fetchMedia''])))"
proof -
  let ?w' = "snd (handleFileUpload usr (Some file) random (g, w))"
  have big: "(\<not> prefix ''video/'' (ftype file) \<and> fsize file > 5 * 1024 * 1024
          \<or> prefix ''video/'' (ftype file) \<and> fsize file > 50 * 1024 * 1024)
        \<longleftrightarrow> fsize file > maxSize file"
    by (auto simp: maxSize_def)
  consider (large) "fsize file > maxSize file"
    | (nouser) "fsize file \<le> maxSize file" "usr = None"
    | (upfail) u where "fsize file \<le> maxSize file" "usr = Some u" "call_failed (settle w (calls w))"
    | (nodata) u where "fsize file \<le> maxSize file" "usr = Some u"
        "\<not> call_failed (settle w (calls w))"
        "\<forall>res p. \<not> (settle w (calls w) = Inr res \<and> \<not> truthy_value (error res)
                    \<and> data res = Some (Stored p))"
    | (insfail) u p res where "fsize file \<le> maxSize file" "usr = Some u"
        "settle w (calls w) = Inr res" "\<not> truthy_value (error res)"
        "data res = Some (Stored p)"
        "call_failed (settle w (Suc (calls w)))"
    | (allok) u p res where "fsize file \<le> maxSize file" "usr = Some u"
        "settle w (calls w) = Inr res" "\<not> truthy_value (error res)"
        "data res = Some (Stored p)"
        "\<not> call_failed (settle w (Suc (calls w)))"
    by (cases usr; cases "fsize file > maxSize file";
        cases "call_failed (settle w (calls w))";
        cases "call_failed (settle w (Suc (calls w)))";
        cases "\<exists>res p. settle w (calls w) = Inr res \<and> \<not> truthy_value (error res)
                  \<and> data res = Some (Stored p)")
       (auto simp: not_less)
  then show ?thesis
  proof cases
    case large
    let ?ev = "case usr of None \<Rightarrow> Navigate ''/login'' | Some u \<Rightarrow> Alert (too_large_alert file)"
    have "trace ?w' = trace w @ [?ev]"
      by (simp add: handleFileUpload_too_large [OF large] emit_def)
    moreover have "invocations [?ev] = []" by (simp split: option.split)
    moreover have "usr \<noteq> None \<longrightarrow> [?ev] = [Alert (too_large_alert file)]" by auto
    ultimately show ?thesis using large
      by (intro exI [of _ "[?ev]"]) (simp only: big, simp)
  next
    case nouser
    then have "trace ?w' = trace w @ [Navigate ''/login'']"
      by (simp add: handleFileUpload_def emit_def)
    with nouser show ?thesis
      by (intro exI [of _ "[Navigate ''/login'']"]) (simp only: big, simp)
  next
    case upfail
    from handleFileUpload_upload_failed [OF upfail(1,3), of u random g] obtain e where
      "?w' = w\<lparr>calls := Suc (calls w),
              trace := trace w @ [Invoke (Storage_upload (upload_path u file random)),
                                  Console_error ''Error uploading file:'' e,
                                  Alert ''Error uploading file'']\<rparr>"
      unfolding upfail(2) by blast
    then have "trace ?w' = trace w @ [Invoke (Storage_upload (upload_path u file random)),
                                  Console_error ''Error uploading file:'' e,
                                  Alert ''Error uploading file'']"
      by simp
    with upfail show ?thesis
      by (intro exI [of _ "[Invoke (Storage_upload (upload_path u file random)),
                                  Console_error ''Error uploading file:'' e,
                                  Alert ''Error uploading file'']"])
         (simp only: big, auto simp: call_failed_def)
  next
    case nodata
    have "\<exists>evs. trace ?w' = trace w @ evs"
      unfolding nodata(2)
      by (auto simp: handleFileUpload_def await_call_eq upload_catch_def emit_def Let_def
            split: sum.splits option.splits payload.splits)
    then obtain evs where "trace ?w' = trace w @ evs" ..
    with nodata show ?thesis
      by (intro exI [of _ evs]) (simp only: big, simp)
  next
    case insfail
    from handleFileUpload_insert_failed [OF insfail(1,3,4,5,6), of u random g] obtain e where
      "?w' = w\<lparr>calls := Suc (Suc (calls w)),
              trace := trace w @ [Invoke (Storage_upload (upload_path u file random)),
                                  Invoke (insert_call u file (Some p) (currentFolder g)),
                                  Console_error ''Error uploading file:'' e,
                                  Alert ''Error uploading file'']\<rparr>"
      unfolding insfail(2) by blast
    then have "trace ?w' = trace w @ [Invoke (Storage_upload (upload_path u file random)),
                                  Invoke (insert_call u file (Some p) (currentFolder g)),
                                  Console_error ''Error uploading file:'' e,
                                  Alert ''Error uploading file'']"
      by simp
    with insfail show ?thesis
      by (intro exI [of _ "[Invoke (Storage_upload (upload_path u file random)),
                                  Invoke (insert_call u file (Some p) (currentFolder g)),
                                  Console_error ''Error uploading file:'' e,
                                  Alert ''Error uploading file'']"])
         (simp only: big, auto simp: call_failed_def)
  next
    case allok
    have "trace ?w' = trace w @ [Invoke (Storage_upload (upload_path u file random)),
                                  Invoke (insert_call u file (Some p) (currentFolder g)),
                                  Spawn ''fetchMedia'']"
      unfolding allok(2) handleFileUpload_done [OF allok(1,3,4,5,6)] by simp
    with allok show ?thesis
      by (intro exI [of _ "[Invoke (Storage_upload (upload_path u file random)),
                                  Invoke (insert_call u file (Some p) (currentFolder g)),
                                  Spawn ''fetchMedia'']"])
         (simp only: big, auto simp: call_failed_def)
  qed
qed

text \<open>An image of 6MB is turned down; a video of 40MB is uploaded and inserted.\<close>

theorem handleFileUpload_gate_and_steps_witness:
  "trace (snd (handleFileUpload (Some alice) (Some big_image) ''0.42'' (gallery0, upload_world))) =
     [Alert ''File too large. Maximum size is 5MB'']
   \<and> trace (snd (handleFileUpload (Some alice) (Some holiday_video) ''0.42'' (gallery0, upload_world))) =
     [Invoke (Storage_upload ''u1/0.42.mp4''),
      Invoke (Row_query \<lparr>table = ''photos'',
                verb = Insert [[(''url'', Some ''u1/0.42.mp4''), (''folder_id'', None),
                                (''uploaded_by'', Some ''u1''), (''media_type'', Some ''video'')]],
                filters = [], ordering = None\<rparr>),
      Spawn ''fetchMedia'']"
proof -
  have big: "\<not> prefix ''video/'' (ftype big_image) \<and> fsize big_image > 5 * 1024 * 1024"
    by (simp add: big_image_def)
  have t0: "trace upload_world = []" by (simp add: upload_world_def)
  from handleFileUpload_gate_and_steps [of "Some alice" big_image "''0.42''" gallery0 upload_world]
    big
  have 1: "trace (snd (handleFileUpload (Some alice) (Some big_image) ''0.42'' (gallery0, upload_world))) =
     [Alert ''File too large. Maximum size is 5MB'']"
    by (auto simp: t0 too_large_alert_def)
  have small: "fsize holiday_video \<le> maxSize holiday_video"
    by (simp add: holiday_video_def maxSize_def)
  have up: "settle upload_world (calls upload_world) =
              Inr \<lparr>data = Some (Stored ''u1/0.42.mp4''), error = JsNull\<rparr>
            \<and> \<not> truthy_value (error \<lparr>data = Some (Stored ''u1/0.42.mp4''), error = JsNull\<rparr>)
            \<and> data \<lparr>data = Some (Stored ''u1/0.42.mp4''), error = JsNull\<rparr> =
                Some (Stored ''u1/0.42.mp4'')"
    by (simp add: upload_world_def)
  have ins: "\<not> call_failed (settle upload_world (Suc (calls upload_world)))"
    by (simp add: upload_world_def call_failed_def)
  have path: "upload_path alice holiday_video ''0.42'' = ''u1/0.42.mp4''"
    by (simp add: upload_path_def alice_def holiday_video_def file_ext_def)
  have call: "insert_call alice holiday_video (Some ''u1/0.42.mp4'') (currentFolder gallery0) =
      Row_query \<lparr>table = ''photos'',
                verb = Insert [[(''url'', Some ''u1/0.42.mp4''), (''folder_id'', None),
                                (''uploaded_by'', Some ''u1''), (''media_type'', Some ''video'')]],
                filters = [], ordering = None\<rparr>"
    by (simp add: insert_call_def upload_row_def from_table_def alice_def holiday_video_def
          gallery0_def)
  from handleFileUpload_gate_and_steps
    [of "Some alice" holiday_video "''0.42''" gallery0 upload_world] small up ins
  have 2: "trace (snd (handleFileUpload (Some alice) (Some holiday_video) ''0.42'' (gallery0, upload_world))) =
     [Invoke (Storage_upload (upload_path alice holiday_video ''0.42'')),
      Invoke (insert_call alice holiday_video (Some ''u1/0.42.mp4'') (currentFolder gallery0)),
      Spawn ''fetchMedia'']"
    by (auto simp: t0)
  from 1 2 show ?thesis
    unfolding path call by blast
qed

lemma fetchFolders_resolved:
  assumes "net w (checks w) = Online" and "net w (Suc (checks w)) \<noteq> Offline_forever"
    and "settle w (calls w) = Inr res"
  shows "\<exists>r g' w'. fetchFolders (Some u) (g, w) = Some (r, g', w')"
proof -
  have "\<exists>r w' evs. supabaseOperation (\<lambda>d. True) (Row_query (folders_query u))
            ''Error fetching folders'' w = Some (r, w')
           \<and> trace w' = trace w @ evs
           \<and> invocations evs = replicate (0 + 1) (Row_query (folders_query u))"
    by (rule supabaseOperation_resolved_trace [of w 0 res]) (use assms in simp_all)
  then obtain r1 w1 where
    "supabaseOperation (\<lambda>d. True) (Row_query (folders_query u)) ''Error fetching folders'' w =
       Some (r1, w1)"
    by blast
  then show ?thesis
    by (cases r1) (simp_all add: fetchFolders_def)
qed

lemma deleteFolder_calls:
  "\<exists>evs. trace (snd (deleteFolder usr confirmed folderId (g, w))) = trace w @ evs
     \<and> set (invocations evs) \<subseteq>
         {Row_query (photos_of_folder_delete folderId), Row_query (folder_delete folderId)}
     \<and> (usr = None \<longrightarrow> evs = [])"
proof (cases "usr = None \<or> \<not> confirmed")
  case True
  then show ?thesis
    by (intro exI [of _ "[]"]) (simp add: deleteFolder_skipped)
next
  case False
  then have u: "usr \<noteq> None" and c: "confirmed" by simp_all
  show ?thesis
  proof (cases "call_failed (settle w (calls w))")
    case True
    from deleteFolder_failed [OF u c True, of folderId g] u show ?thesis by auto
  next
    case False
    from deleteFolder_done [OF u c False, of folderId g] u show ?thesis by auto
  qed
qed

lemma deleteMedia_calls:
  assumes "deleteMedia usr confirmed item (g, w) = Some (g', w')"
  shows "\<exists>evs. trace w' = trace w @ evs
     \<and> set (invocations evs) \<subseteq>
         {Storage_remove [item_url item], Row_query (media_delete item)}
           \<union> (case usr of None \<Rightarrow> {}
              | Some u \<Rightarrow> {Row_query (media_query u (currentFolder g))})
     \<and> (usr = None \<longrightarrow> evs = [])"
proof (cases "usr = None \<or> isDeletingMedia g \<or> \<not> confirmed")
  case True
  with assms have "w' = w" by (auto simp: deleteMedia_def split: if_splits)
  then show ?thesis by simp
next
  case False
  then obtain u where u: "usr = Some u" by auto
  let ?w1 = "w\<lparr>calls := Suc (calls w), trace := trace w @ [Invoke (Storage_remove [item_url item])]\<rparr>"
  let ?w2 = "?w1\<lparr>calls := Suc (calls ?w1), trace := trace ?w1 @ [Invoke (Row_query (media_delete item))]\<rparr>"
  show ?thesis
  proof (cases "settled (settle w (calls w))")
    case (Inl e)
    with assms False have "w' = delete_media_catch e ?w1"
      by (auto simp: deleteMedia_def await_call_eq)
    then show ?thesis using u
      by (simp add: delete_media_catch_def emit_def)
  next
    case r1: (Inr d1)
    show ?thesis
    proof (cases "settled (settle w (Suc (calls w)))")
      case (Inl e)
      with assms False r1 have "w' = delete_media_catch e ?w2"
        by (auto simp: deleteMedia_def await_call_eq)
      then show ?thesis using u
        by (simp add: delete_media_catch_def emit_def)
    next
      case r2: (Inr d2)
      let ?g2 = "g\<lparr>isDeletingMedia := True, selectedMedia := None\<rparr>"
      from assms False r1 r2 obtain r3 g3 w3 where
        f: "fetchMedia usr (?g2, ?w2) = Some (r3, g3, w3)"
        and w': "w' = (case r3 of Inl e \<Rightarrow> delete_media_catch e w3 | Inr x \<Rightarrow> w3)"
        by (auto simp: deleteMedia_def await_call_eq split: option.splits sum.splits)
      from fetchMedia_trace [OF f] u obtain evs where
        e: "trace w3 = trace ?w2 @ evs"
           "set (invocations evs) \<subseteq> {Row_query (media_query u (currentFolder g))}"
        by auto
      from w' have "\<exists>cs. trace w' = trace w3 @ cs \<and> invocations cs = []"
        by (cases r3) (simp_all add: delete_media_catch_def emit_def)
      then obtain cs where cs: "trace w' = trace w3 @ cs" "invocations cs = []" by blast
      from e cs u show ?thesis
        by (intro exI [of _ "[Invoke (Storage_remove [item_url item]),
                              Invoke (Row_query (media_delete item))] @ evs @ cs"])
           auto
    qed
  qed
qed

text \<open>
  C3, as amended. The two listing queries, of \<open>fetchMedia\<close> on \<open>photos\<close> and of
  \<open>fetchFolders\<close> on \<open>folders\<close>, filter on the current user's id, and they are the only
  queries these two functions issue. The delete queries carry no user filter:
  \<open>deleteFolder\<close> deletes the photos by \<open>folder_id\<close> alone and the folder by \<open>id\<close>
  alone, \<open>deleteMedia\<close> deletes the photo row by \<open>id\<close> alone. None of them is issued
  without a signed-in user.
\<close>

theorem queries_user_scope:
  "user_scoped (uid u) (media_query u cf) \<and> user_scoped (uid u) (folders_query u)
   \<and> filters (photos_of_folder_delete folderId) = [Eq ''folder_id'' folderId]
   \<and> filters (folder_delete folderId) = [Eq ''id'' folderId]
   \<and> filters (media_delete item) = [Eq ''id'' (item_id item)]
   \<and> (\<forall>r g' w'. fetchMedia (Some u) (g, w) = Some (r, g', w') \<longrightarrow>
         (\<exists>evs. trace w' = trace w @ evs
            \<and> set (invocations evs) \<subseteq> {Row_query (media_query u (currentFolder g))}))
   \<and> (\<forall>r g' w'. fetchFolders (Some u) (g, w) = Some (r, g', w') \<longrightarrow>
         (\<exists>evs. trace w' = trace w @ evs
            \<and> set (invocations evs) \<subseteq> {Row_query (folders_query u)}))
   \<and> (\<exists>evs. trace (snd (deleteFolder usr confirmed folderId (g, w))) = trace w @ evs
         \<and> set (invocations evs) \<subseteq>
             {Row_query (photos_of_folder_delete folderId), Row_query (folder_delete folderId)}
         \<and> (usr = None \<longrightarrow> evs = []))
   \<and> (\<forall>g' w'. deleteMedia usr confirmed item (g, w) = Some (g', w') \<longrightarrow>
         (\<exists>evs. trace w' = trace w @ evs
            \<and> set (invocations evs) \<subseteq>
                {Storage_remove [item_url item], Row_query (media_delete item)}
                  \<union> (case usr of None \<Rightarrow> {}
                     | Some u' \<Rightarrow> {Row_query (media_query u' (currentFolder g))})
            \<and> (usr = None \<longrightarrow> evs = [])))"
proof -
  have 1: "user_scoped (uid u) (media_query u cf)"
    by (cases cf)
       (simp_all add: user_scoped_def media_query_def eq_def filter_is_null_def order_desc_def
          from_table_def Let_def)
  have 2: "user_scoped (uid u) (folders_query u)"
    by (simp add: user_scoped_def folders_query_def eq_def order_desc_def from_table_def)
  have 3: "filters (photos_of_folder_delete folderId) = [Eq ''folder_id'' folderId]"
    "filters (folder_delete folderId) = [Eq ''id'' folderId]"
    "filters (media_delete item) = [Eq ''id'' (item_id item)]"
    by (simp_all add: photos_of_folder_delete_def folder_delete_def media_delete_def eq_def
          from_table_def)
  have 4: "\<forall>r g' w'. fetchMedia (Some u) (g, w) = Some (r, g', w') \<longrightarrow>
         (\<exists>evs. trace w' = trace w @ evs
            \<and> set (invocations evs) \<subseteq> {Row_query (media_query u (currentFolder g))})"
    using fetchMedia_trace [of "Some u" g w] by simp
  have 5: "\<forall>r g' w'. fetchFolders (Some u) (g, w) = Some (r, g', w') \<longrightarrow>
         (\<exists>evs. trace w' = trace w @ evs
            \<and> set (invocations evs) \<subseteq> {Row_query (folders_query u)})"
    using fetchFolders_trace [of "Some u" g w] by simp
  have 6: "\<forall>g' w'. deleteMedia usr confirmed item (g, w) = Some (g', w') \<longrightarrow>
         (\<exists>evs. trace w' = trace w @ evs
            \<and> set (invocations evs) \<subseteq>
                {Storage_remove [item_url item], Row_query (media_delete item)}
                  \<union> (case usr of None \<Rightarrow> {}
                     | Some u' \<Rightarrow> {Row_query (media_query u' (currentFolder g))})
            \<and> (usr = None \<longrightarrow> evs = []))"
    using deleteMedia_calls [of usr confirmed item g w] by blast
  from 1 2 3 4 5 deleteFolder_calls [of usr confirmed folderId g w] 6
  show ?thesis by blast
qed

text \<open>Listing the folders of a signed-in user.\<close>

theorem queries_user_scope_witness:
  "user_scoped ''u1'' (folders_query alice)
   \<and> (\<exists>r g' w' evs. fetchFolders (Some alice) (gallery0, rows_world) = Some (r, g', w')
        \<and> trace w' = evs \<and> set (invocations evs) \<subseteq> {Row_query (folders_query alice)})"
proof -
  have "\<exists>r g' w'. fetchFolders (Some alice) (gallery0, rows_world) = Some (r, g', w')"
    by (rule fetchFolders_resolved [of _ "\<lparr>data = Some (Rows []), error = JsNull\<rparr>"])
       (simp_all add: rows_world_def)
  then obtain r g' w' where run: "fetchFolders (Some alice) (gallery0, rows_world) = Some (r, g', w')"
    by blast
  have t0: "trace rows_world = []" by (simp add: rows_world_def)
  from queries_user_scope [of alice None "''f1''" "\<lparr>item_id = ''p1'', item_url = ''u1/a.png''\<rparr>"
      gallery0 rows_world None False] run t0
  show ?thesis
    by (auto simp: alice_def)
qed

text \<open>
  C3 as stated fails on \<open>deleteFolder\<close>: neither of its two delete queries has a filter
  on the user's id.
\<close>

theorem deleteFolder_unscoped_counterexample:
  "invocations (trace (snd (deleteFolder (Some alice) True ''f1'' (gallery0, ok_world)))) =
     [Row_query (photos_of_folder_delete ''f1''), Row_query (folder_delete ''f1'')]
   \<and> \<not> user_scoped (uid alice) (photos_of_folder_delete ''f1'')
   \<and> \<not> user_scoped (uid alice) (folder_delete ''f1'')"
proof -
  have k: "\<not> call_failed (settle ok_world (calls ok_world))"
    by (simp add: ok_world_def call_failed_def)
  have t0: "trace ok_world = []" by (simp add: ok_world_def)
  from deleteFolder_done [OF _ _ k, of "Some alice" True "''f1''" gallery0]
  have "invocations (trace (snd (deleteFolder (Some alice) True ''f1'' (gallery0, ok_world)))) =
     [Row_query (photos_of_folder_delete ''f1''), Row_query (folder_delete ''f1'')]"
    by (auto simp: t0)
  moreover have "\<not> user_scoped (uid alice) (photos_of_folder_delete ''f1'')"
    "\<not> user_scoped (uid alice) (folder_delete ''f1'')"
    by (simp_all add: user_scoped_def photos_of_folder_delete_def folder_delete_def eq_def
          from_table_def alice_def)
  ultimately show ?thesis by blast
qed

end
